theory Spec2Isabelle
  imports Main "HOL-Library.AList" "HOL-Library.Sublist"
begin

text \<open>
  A model of the agent execution core of the repository: the Tool Registry, the Agent
  Engine, the Context Manager's entry to it, the Sub-Agent Catalog with quickRoute, the
  Orchestrator, the RPC server and the stdio RPC client.

  Conventions.  A function that can throw returns a sum, with the message of the
  exception as \<open>Inl\<close>.  An asynchronous function is run to its end where it is awaited:
  the outside world it acts on is passed in and returned.  Calls of the logger are left
  out, except in the RPC server, whose standard output is the channel of its responses.
  The definitions come first, section by section as the source files; the properties
  follow.
\<close>

section \<open>Values and built-ins of the host runtime\<close>

text \<open>
  Values that cross the tool, oracle and RPC boundaries are JSON values.  Numbers are
  modelled as integers (request ids, counters); an absent property (\<open>undefined\<close>) is
  \<open>None\<close> of an option type.
\<close>

datatype json =
    JNull
  | JBool bool
  | JNum int
  | JStr string
  | JArr "json list"
  | JObj "(string \<times> json) list"

text \<open>
  The built-ins of the JavaScript runtime that the code calls are not part of the
  repository; they are parameters of the model, so every theorem holds for any
  behaviour of them.  \<open>JSON_stringify\<close> is \<open>JSON.stringify(v)\<close>,
  \<open>JSON_stringify_pretty\<close> is \<open>JSON.stringify(v, null, 2)\<close>, \<open>JSON_parse\<close> is
  \<open>JSON.parse\<close> with the message of a thrown SyntaxError as \<open>Inl\<close>, \<open>String_of\<close> is
  the string conversion \<open>String(v)\<close> of a value that is not a string, and
  \<open>String_trim\<close> and \<open>String_toLowerCase\<close> are \<open>String.prototype.trim\<close> and
  \<open>String.prototype.toLowerCase\<close>, which know the white space and the letters of all
  of Unicode.  \<open>DEVWEAVER_LOG_LEVEL\<close> is the environment variable of that name in
  \<open>process.env\<close>, \<open>None\<close> when it is not set.

  A string is modelled by the list of the bytes of its UTF-8 encoding (the type \<open>char\<close>
  has 256 elements); for a string of ASCII characters this is the list of its
  characters.  The runtime's built-ins above act on the encoding as the built-in acts
  on the string.  The two string built-ins that are modelled by definitions further
  down, \<open>includes\<close> and \<open>split\<close> with an ASCII separator, only compare for equality, and
  on well-formed strings they find in the encoding what they find in the string.
\<close>

record runtime =
  JSON_stringify :: "json \<Rightarrow> string"
  JSON_stringify_pretty :: "json \<Rightarrow> string"
  JSON_parse :: "string \<Rightarrow> string + json"
  String_of :: "json option \<Rightarrow> string"
  String_trim :: "string \<Rightarrow> string"
  String_toLowerCase :: "string \<Rightarrow> string"
  DEVWEAVER_LOG_LEVEL :: "string option"

text \<open>
  Property access \<open>v.k\<close> on a parsed value: objects built by \<open>JSON.parse\<close> keep the
  last binding of a repeated key; every other non-null value has none of the
  properties the code reads.  Reading a property of \<open>null\<close> throws a TypeError, which
  the callers below handle case by case.
\<close>

fun field :: "json \<Rightarrow> string \<Rightarrow> json option" where
  "field (JObj kvs) k = map_of (rev kvs) k"
| "field _ k = None"

text \<open>
  The string conversion of template literals and property keys: a string is itself, any
  other value is converted by the runtime.
\<close>

definition js_string :: "runtime \<Rightarrow> json option \<Rightarrow> string" where
  "js_string rt v = (case v of Some (JStr str) \<Rightarrow> str | _ \<Rightarrow> String_of rt v)"

text \<open>JavaScript truthiness of a possibly absent JSON value.\<close>

fun truthy :: "json option \<Rightarrow> bool" where
  "truthy None = False"
| "truthy (Some JNull) = False"
| "truthy (Some (JBool b)) = b"
| "truthy (Some (JNum n)) = (n \<noteq> 0)"
| "truthy (Some (JStr s)) = (s \<noteq> [])"
| "truthy (Some (JArr _)) = True"
| "truthy (Some (JObj _)) = True"

text \<open>
  An object literal inherits the properties of \<open>Object.prototype\<close>: a lookup \<open>obj[key]\<close>
  with one of these keys finds a value (a function, or the prototype itself for
  \<open>__proto__\<close>) although the literal has no such entry.
\<close>

definition Object_prototype :: "string list" where
  "Object_prototype =
     [''constructor'', ''__defineGetter__'', ''__defineSetter__'', ''hasOwnProperty'',
      ''__lookupGetter__'', ''__lookupSetter__'', ''isPrototypeOf'', ''propertyIsEnumerable'',
      ''toString'', ''valueOf'', ''__proto__'', ''toLocaleString'']"

text \<open>A name in single quotes, as the messages of the runtime's TypeErrors have it.\<close>

definition squoted :: "string \<Rightarrow> string" where
  "squoted str = [CHR 0x27] @ str @ [CHR 0x27]"

section \<open>Logger (utils/logger.ts)\<close>

text \<open>
  \<open>currentLevel\<close> is \<open>LEVELS[process.env.DEVWEAVER_LOG_LEVEL || 'info'] ?? 1\<close>, computed
  once.  For a key that \<open>LEVELS\<close> inherits it is not a number (\<open>None\<close>), and every
  comparison with it is false.  A logger function prints when
  \<open>currentLevel <= LEVELS.level\<close>.
\<close>

definition LEVELS :: "(string \<times> nat) list" where
  "LEVELS = [(''debug'', 0), (''info'', 1), (''warn'', 2), (''error'', 3)]"

definition currentLevel :: "runtime \<Rightarrow> nat option" where
  "currentLevel rt =
     (let key = (case DEVWEAVER_LOG_LEVEL rt of
                   None \<Rightarrow> ''info''
                 | Some v \<Rightarrow> if v = [] then ''info'' else v)
      in case map_of LEVELS key of
           Some n \<Rightarrow> Some n
         | None \<Rightarrow> if key \<in> set Object_prototype then None else Some 1)"

definition level_allows :: "runtime \<Rightarrow> string \<Rightarrow> bool" where
  "level_allows rt level =
     (case (currentLevel rt, map_of LEVELS level) of
        (Some n, Some m) \<Rightarrow> n \<le> m
      | _ \<Rightarrow> False)"

section \<open>Tool Registry (tools/registry.ts)\<close>

text \<open>
  A handler is an asynchronous function on the outside world \<open>'w\<close>: it returns
  either the message of the exception it threw (\<open>Inl\<close>) or its result (\<open>Inr\<close>),
  together with the world it leaves behind.
\<close>

type_synonym 'w handler = "json \<Rightarrow> 'w \<Rightarrow> (string + json) \<times> 'w"

record ToolDefinition =
  name :: string
  description :: string
  input_schema :: json

record 'w ToolEntry =
  defn :: ToolDefinition
  handler :: "'w handler"

text \<open>
  The registry's map from tool names to entries is an association list in insertion order
  with one binding per key; \<open>AList.update\<close> is \<open>Map.set\<close>: it overwrites the value of a
  present key in place and appends a new key at the end.
\<close>

type_synonym 'w ToolRegistry = "(string \<times> 'w ToolEntry) list"

definition register :: "ToolDefinition \<Rightarrow> 'w handler \<Rightarrow> 'w ToolRegistry \<Rightarrow> 'w ToolRegistry" where
  "register d h tools = AList.update (name d) \<lparr>defn = d, handler = h\<rparr> tools"

definition definitions :: "'w ToolRegistry \<Rightarrow> ToolDefinition list" where
  "definitions tools = map (\<lambda>t. defn t) (map snd tools)"

definition has :: "'w ToolRegistry \<Rightarrow> string \<Rightarrow> bool" where
  "has tools n = (map_of tools n \<noteq> None)"

definition definitionsFor :: "'w ToolRegistry \<Rightarrow> string list \<Rightarrow> ToolDefinition list" where
  "definitionsFor tools names =
     map (\<lambda>n. defn (the (map_of tools n))) (filter (\<lambda>n. has tools n) names)"

text \<open>
  \<open>execute\<close> looks the entry up, throws for an unknown name, and calls the handler.  (In
  between it logs the serialized input, which is defined for every JSON value.)
\<close>

definition execute :: "'w ToolRegistry \<Rightarrow> string \<Rightarrow> json \<Rightarrow> 'w \<Rightarrow> (string + json) \<times> 'w" where
  "execute tools n input w =
     (case map_of tools n of
        None \<Rightarrow> (Inl (''Unknown tool: '' @ n), w)
      | Some entry \<Rightarrow> handler entry input w)"

definition names :: "'w ToolRegistry \<Rightarrow> string list" where
  "names tools = map fst tools"

text \<open>The registry after a sequence of \<open>register\<close> calls on the empty singleton.\<close>

definition registered :: "(ToolDefinition \<times> 'w handler) list \<Rightarrow> 'w ToolRegistry" where
  "registered regs = foldl (\<lambda>tools (d, h). register d h tools) [] regs"

text \<open>
  The pair currently registered under a name: the last \<open>register\<close> call with that name
  (re-registration overwrites).
\<close>

definition current :: "(ToolDefinition \<times> 'w handler) list \<Rightarrow> string \<Rightarrow> (ToolDefinition \<times> 'w handler) option" where
  "current regs n = find (\<lambda>(d, h). name d = n) (rev regs)"

text \<open>The tool of the repository's own test of the registry (tests/run.ts).\<close>

definition test_tool :: ToolDefinition where
  "test_tool = \<lparr>name = ''test_tool'', description = ''A test tool'',
     input_schema = JObj [(''type'', JStr ''object''), (''properties'', JObj [])]\<rparr>"

definition test_handler :: "unit handler" where
  "test_handler input w =
     (Inr (JObj [(''success'', JBool True), (''data'', JObj [(''echo'', input)])]), w)"

section \<open>Conversation types (types/index.ts)\<close>

datatype block_type = TypeText | TypeToolUse | TypeToolResult

text \<open>
  A content block carries a type tag and optional properties, as the interface
  \<open>ContentBlock\<close> declares them.
\<close>

record ContentBlock =
  b_type :: block_type
  b_text :: "string option"
  b_id :: "string option"
  b_name :: "string option"
  b_input :: "json option"
  b_tool_use_id :: "string option"
  b_content :: "json option"
  b_is_error :: "bool option"

text \<open>
  What the type guard of \<open>extractToolUse\<close> narrows a block to: the name and the input
  are present; the correlation id is read without being checked.
\<close>

record ToolUseBlock =
  tu_id :: "string option"
  tu_name :: string
  tu_input :: json

datatype role = User | Assistant

datatype MessageContent = Str string | Blocks "ContentBlock list"

record Message =
  role :: role
  content :: MessageContent

record LLMCallOptions =
  systemPrompt :: string
  messages :: "Message list"
  tools :: "ToolDefinition list option"

text \<open>Of the oracle's reply the code reads the content blocks only.\<close>

record LLMResponse =
  r_content :: "ContentBlock list"

section \<open>Oracle client helpers (llm/provider.ts)\<close>

fun join :: "string \<Rightarrow> string list \<Rightarrow> string" where
  "join sep [] = []"
| "join sep [x] = x"
| "join sep (x # y # xs) = x @ sep @ join sep (y # xs)"

definition extractText :: "LLMResponse \<Rightarrow> string" where
  "extractText response =
     join [CHR 0x0A]
       (List.map_filter (\<lambda>b. if b_type b = TypeText then b_text b else None)
          (r_content response))"

definition extractToolUse :: "LLMResponse \<Rightarrow> ToolUseBlock list" where
  "extractToolUse response =
     List.map_filter
       (\<lambda>b. if b_type b = TypeToolUse
            then (case (b_name b, b_input b) of
                    (Some n, Some i) \<Rightarrow> Some \<lparr>tu_id = b_id b, tu_name = n, tu_input = i\<rparr>
                  | _ \<Rightarrow> None)
            else None)
       (r_content response)"

section \<open>The outside world and its trace\<close>

text \<open>
  The oracle call (\<open>callLLM\<close>, an HTTP round trip) and the tool handlers act on the
  outside world \<open>'w\<close>.  Each oracle call and each tool execution is recorded, in order,
  in a trace, so that how many calls a run made, and with which arguments, can be
  stated.  An oracle call that fails returns the message of its exception (\<open>Inl\<close>).
\<close>

datatype event =
    LLMCall LLMCallOptions "string + LLMResponse"
  | ToolExec string json "string + json"

record 'w sys =
  world :: 'w
  trace :: "event list"

type_synonym 'w llm_client = "LLMCallOptions \<Rightarrow> 'w \<Rightarrow> (string + LLMResponse) \<times> 'w"

record 'w env =
  callLLM :: "'w llm_client"
  registry :: "'w ToolRegistry"
  runtime :: runtime
  config_agent_maxIterations :: int

definition call_oracle :: "'w env \<Rightarrow> LLMCallOptions \<Rightarrow> 'w sys \<Rightarrow> (string + LLMResponse) \<times> 'w sys" where
  "call_oracle env opts s =
     (case callLLM env opts (world s) of
        (r, w') \<Rightarrow> (r, \<lparr>world = w', trace = trace s @ [LLMCall opts r]\<rparr>))"

definition registry_execute :: "'w env \<Rightarrow> string \<Rightarrow> json \<Rightarrow> 'w sys \<Rightarrow> (string + json) \<times> 'w sys" where
  "registry_execute env n input s =
     (case execute (registry env) n input (world s) of
        (r, w') \<Rightarrow> (r, \<lparr>world = w', trace = trace s @ [ToolExec n input r]\<rparr>))"

section \<open>Agent Engine (agents/engine.ts)\<close>

record RunAgentOptions =
  opt_name :: string
  opt_systemPrompt :: string
  userMessage :: string
  toolNames :: "string list option"
  maxIterations :: "int option"
  priorMessages :: "Message list option"

record ToolCall =
  call_name :: string
  call_input :: json

record RunAgentResult =
  result :: string
  res_messages :: "Message list"
  toolCalls :: "ToolCall list"

text \<open>
  The payload of one tool call: the handler's result, or \<open>{error: message}\<close> when the
  call threw; and its rendering as the content of the tool-result block.
\<close>

definition tool_payload :: "string + json \<Rightarrow> json" where
  "tool_payload r = (case r of Inl msg \<Rightarrow> JObj [(''error'', JStr msg)] | Inr v \<Rightarrow> v)"

definition result_content :: "runtime \<Rightarrow> json \<Rightarrow> string" where
  "result_content rt v = (case v of JStr str \<Rightarrow> str | _ \<Rightarrow> JSON_stringify rt v)"

definition tool_result_block :: "string option \<Rightarrow> string \<Rightarrow> ContentBlock" where
  "tool_result_block tuid c =
     \<lparr>b_type = TypeToolResult, b_text = None, b_id = None, b_name = None, b_input = None,
      b_tool_use_id = tuid, b_content = Some (JStr c), b_is_error = None\<rparr>"

text \<open>The inner loop \<open>for (const tu of toolUseBlocks)\<close> of \<open>runAgent\<close>.\<close>

fun executeToolCalls ::
  "'w env \<Rightarrow> ToolUseBlock list \<Rightarrow> ContentBlock list \<Rightarrow> ToolCall list \<Rightarrow> 'w sys
     \<Rightarrow> ContentBlock list \<times> ToolCall list \<times> 'w sys" where
  "executeToolCalls env [] toolResults allToolCalls s = (toolResults, allToolCalls, s)"
| "executeToolCalls env (tu # tus) toolResults allToolCalls s =
     (case registry_execute env (tu_name tu) (tu_input tu) s of
        (r, s') \<Rightarrow>
          executeToolCalls env tus
            (toolResults @
               [tool_result_block (tu_id tu) (result_content (runtime env) (tool_payload r))])
            (allToolCalls @ [\<lparr>call_name = tu_name tu, call_input = tu_input tu\<rparr>])
            s')"

text \<open>The outer loop \<open>for (let i = 0; i < maxIterations; i++)\<close> of \<open>runAgent\<close>.\<close>

function agentLoop ::
  "'w env \<Rightarrow> string \<Rightarrow> ToolDefinition list \<Rightarrow> int \<Rightarrow> int \<Rightarrow> Message list \<Rightarrow> ToolCall list
     \<Rightarrow> string \<Rightarrow> 'w sys \<Rightarrow> (string + RunAgentResult) \<times> 'w sys" where
  "agentLoop env sysPrompt tls maxIter i msgs allToolCalls finalText s =
     (if i < maxIter then
        (case call_oracle env
                \<lparr>systemPrompt = sysPrompt, messages = msgs,
                 tools = (if length tls > 0 then Some tls else None)\<rparr> s of
           (Inl err, s1) \<Rightarrow> (Inl err, s1)
         | (Inr response, s1) \<Rightarrow>
             (let text = extractText response;
                  finalText' = (if text \<noteq> [] then text else finalText);
                  toolUseBlocks = extractToolUse response;
                  msgs' = msgs @ [\<lparr>role = Assistant, content = Blocks (r_content response)\<rparr>]
              in if length toolUseBlocks = 0
                 then (Inr \<lparr>result = finalText', res_messages = msgs',
                            toolCalls = allToolCalls\<rparr>, s1)
                 else (case executeToolCalls env toolUseBlocks [] allToolCalls s1 of
                         (toolResults, allToolCalls', s2) \<Rightarrow>
                           agentLoop env sysPrompt tls maxIter (i + 1)
                             (msgs' @ [\<lparr>role = User, content = Blocks toolResults\<rparr>])
                             allToolCalls' finalText' s2)))
      else (Inr \<lparr>result = finalText, res_messages = msgs, toolCalls = allToolCalls\<rparr>, s))"
  by pat_completeness auto
termination
  by (relation "measure (\<lambda>(env, sysPrompt, tls, maxIter, i, rest). nat (maxIter - i))") auto

declare agentLoop.simps [simp del]

text \<open>The iteration budget: the option given, or else \<open>config.agent.maxIterations\<close>.\<close>

definition maxIterations_of :: "'w env \<Rightarrow> RunAgentOptions \<Rightarrow> int" where
  "maxIterations_of env opts =
     (case maxIterations opts of None \<Rightarrow> config_agent_maxIterations env | Some m \<Rightarrow> m)"

definition runAgent :: "'w env \<Rightarrow> RunAgentOptions \<Rightarrow> 'w sys \<Rightarrow> (string + RunAgentResult) \<times> 'w sys" where
  "runAgent env opts s =
     (let maxIter = maxIterations_of env opts;
          prior = (case priorMessages opts of None \<Rightarrow> [] | Some ms \<Rightarrow> ms);
          tls = (case toolNames opts of
                   Some ns \<Rightarrow> definitionsFor (registry env) ns
                 | None \<Rightarrow> definitions (registry env));
          msgs = prior @ [\<lparr>role = User, content = Str (userMessage opts)\<rparr>]
      in agentLoop env (opt_systemPrompt opts) tls maxIter 0 msgs [] [] s)"

section \<open>Context Manager (agents/context-manager.ts)\<close>

record ContextOptions =
  ctx_maxIterations :: "int option"
  ctx_toolNames :: "string list option"
  includePriorMessages :: "bool option"
  ctx_priorMessages :: "Message list option"

text \<open>
  \<open>executeFreshContext\<close> forwards its options to \<open>runAgent\<close> and rethrows what it throws.
\<close>

definition executeFreshContext ::
  "'w env \<Rightarrow> string \<Rightarrow> string \<Rightarrow> string \<Rightarrow> ContextOptions \<Rightarrow> 'w sys
     \<Rightarrow> (string + RunAgentResult) \<times> 'w sys" where
  "executeFreshContext env agentName sysPrompt userMsg options s =
     runAgent env
       \<lparr>opt_name = agentName, opt_systemPrompt = sysPrompt, userMessage = userMsg,
        toolNames = ctx_toolNames options,
        maxIterations = Some (case ctx_maxIterations options of None \<Rightarrow> 20 | Some m \<Rightarrow> m),
        priorMessages =
          Some (if (case includePriorMessages options of None \<Rightarrow> False | Some b \<Rightarrow> b)
                then (case ctx_priorMessages options of None \<Rightarrow> [] | Some ms \<Rightarrow> ms)
                else [])\<rparr> s"

text \<open>
  \<open>spawnResearcher\<close>; the researcher's prompt is a fixed text, taken as a parameter.
\<close>

definition spawnResearcher ::
  "'w env \<Rightarrow> string \<Rightarrow> string \<Rightarrow> string list option \<Rightarrow> 'w sys
     \<Rightarrow> (string + RunAgentResult) \<times> 'w sys" where
  "spawnResearcher env researcherPrompt researchGoals names_opt s =
     executeFreshContext env ''researcher'' researcherPrompt researchGoals
       \<lparr>ctx_maxIterations = None,
        ctx_toolNames =
          Some (case names_opt of None \<Rightarrow> [''code_*'', ''bitbucket_*''] | Some ns \<Rightarrow> ns),
        includePriorMessages = None, ctx_priorMessages = None\<rparr> s"

section \<open>Reading a run off the trace\<close>

text \<open>
  The events a run added to the trace; the oracle calls among them, with the options
  they were made with; the replies of the calls that succeeded; and the candidate final
  answer after a sequence of replies (each non-empty text replaces the previous one).
\<close>

definition new_events :: "'w sys \<Rightarrow> 'w sys \<Rightarrow> event list" where
  "new_events s s' = drop (length (trace s)) (trace s')"

fun oracle_calls :: "event list \<Rightarrow> LLMCallOptions list" where
  "oracle_calls [] = []"
| "oracle_calls (LLMCall opts r # evs) = opts # oracle_calls evs"
| "oracle_calls (ToolExec n i r # evs) = oracle_calls evs"

fun oracle_replies :: "event list \<Rightarrow> LLMResponse list" where
  "oracle_replies [] = []"
| "oracle_replies (LLMCall opts (Inr r) # evs) = r # oracle_replies evs"
| "oracle_replies (LLMCall opts (Inl e) # evs) = oracle_replies evs"
| "oracle_replies (ToolExec n i r # evs) = oracle_replies evs"

definition candidate :: "string \<Rightarrow> LLMResponse list \<Rightarrow> string" where
  "candidate ft rs = foldl (\<lambda>ft r. if extractText r \<noteq> [] then extractText r else ft) ft rs"

definition tool_events :: "ToolUseBlock list \<Rightarrow> (string + json) list \<Rightarrow> event list" where
  "tool_events tus outs = map (\<lambda>(tu, out). ToolExec (tu_name tu) (tu_input tu) out) (zip tus outs)"

definition tool_results :: "runtime \<Rightarrow> ToolUseBlock list \<Rightarrow> (string + json) list \<Rightarrow> ContentBlock list" where
  "tool_results rt tus outs =
     map (\<lambda>(tu, out). tool_result_block (tu_id tu) (result_content rt (tool_payload out))) (zip tus outs)"

text \<open>
  The outcomes of the handlers of a batch of requested tool calls.  The outcome of a call
  is what the handler registered under its name returns or throws on its input, and the
  message \<open>Unknown tool\<close> when there is none.  Each call is run in order, on the world
  the previous one left, whatever the previous ones returned or threw.
\<close>

fun handler_outcomes :: "'w env \<Rightarrow> ToolUseBlock list \<Rightarrow> 'w \<Rightarrow> (string + json) list \<times> 'w" where
  "handler_outcomes env [] w = ([], w)"
| "handler_outcomes env (tu # tus) w =
     (case (case map_of (registry env) (tu_name tu) of
              None \<Rightarrow> (Inl (''Unknown tool: '' @ tu_name tu), w)
            | Some entry \<Rightarrow> handler entry (tu_input tu) w) of
        (r, w1) \<Rightarrow> (case handler_outcomes env tus w1 of (rs, w2) \<Rightarrow> (r # rs, w2)))"

section \<open>Stubs for concrete runs\<close>

text \<open>
  A runtime for concrete runs.  Its \<open>trim\<close> and \<open>toLowerCase\<close> are those of the host
  runtime on strings of ASCII characters: white space is the space and the characters
  0x09 to 0x0D, and the capitals A to Z are the letters that change.
\<close>

definition is_space :: "char \<Rightarrow> bool" where
  "is_space ch = (ch \<in> set [CHR '' '', CHR 0x09, CHR 0x0A, CHR 0x0B, CHR 0x0C, CHR 0x0D])"

definition stub_trim :: "string \<Rightarrow> string" where
  "stub_trim str = rev (dropWhile is_space (rev (dropWhile is_space str)))"

definition lower_char :: "char \<Rightarrow> char" where
  "lower_char c =
     (let n = (of_char c :: nat) in if 65 \<le> n \<and> n \<le> 90 then char_of (n + 32) else c)"

definition stub_toLowerCase :: "string \<Rightarrow> string" where
  "stub_toLowerCase str = map lower_char str"

text \<open>
  Two oracle stubs (one that answers at once, one that requests the test tool
  on every turn, as the harmless no-op tool call of the specification's test), an
  environment over the registry of the test tool, and run options.
\<close>

definition stub_stringify :: "json \<Rightarrow> string" where
  "stub_stringify v =
     (case v of
        JObj [(k, JStr str)] \<Rightarrow>
          ''{'' @ [CHR 0x22] @ k @ [CHR 0x22] @ '':'' @ [CHR 0x22] @ str @ [CHR 0x22] @ ''}''
      | _ \<Rightarrow> ''{}'')"

definition stub_runtime :: runtime where
  "stub_runtime = \<lparr>JSON_stringify = stub_stringify, JSON_stringify_pretty = stub_stringify,
     JSON_parse = (\<lambda>l. Inl ''Unexpected token''), String_of = (\<lambda>v. ''undefined''),
     String_trim = stub_trim, String_toLowerCase = stub_toLowerCase,
     DEVWEAVER_LOG_LEVEL = None\<rparr>"

definition text_block :: "string \<Rightarrow> ContentBlock" where
  "text_block t = \<lparr>b_type = TypeText, b_text = Some t, b_id = None, b_name = None,
     b_input = None, b_tool_use_id = None, b_content = None, b_is_error = None\<rparr>"

definition tool_use_block :: "string \<Rightarrow> string \<Rightarrow> json \<Rightarrow> ContentBlock" where
  "tool_use_block i n inp = \<lparr>b_type = TypeToolUse, b_text = None, b_id = Some i, b_name = Some n,
     b_input = Some inp, b_tool_use_id = None, b_content = None, b_is_error = None\<rparr>"

definition answering_oracle :: "unit llm_client" where
  "answering_oracle opts w = (Inr \<lparr>r_content = [text_block ''done'']\<rparr>, w)"

definition tool_requesting_oracle :: "unit llm_client" where
  "tool_requesting_oracle opts w =
     (Inr \<lparr>r_content = [tool_use_block ''toolu_1'' ''test_tool'' (JObj [])]\<rparr>, w)"

definition stub_env :: "unit llm_client \<Rightarrow> unit env" where
  "stub_env orc = \<lparr>callLLM = orc, registry = registered [(test_tool, test_handler)],
     runtime = stub_runtime, config_agent_maxIterations = 25\<rparr>"

text \<open>
  An environment whose registry holds tools of the code and code-host groups, and the
  options with which \<open>spawnResearcher\<close> reaches \<open>runAgent\<close> by default.
\<close>

definition code_tool :: "string \<Rightarrow> ToolDefinition" where
  "code_tool n = \<lparr>name = n, description = ''A built-in tool'',
     input_schema = JObj [(''type'', JStr ''object''), (''properties'', JObj [])]\<rparr>"

definition code_env :: "unit env" where
  "code_env = \<lparr>callLLM = answering_oracle,
     registry = registered [(code_tool ''code_read_file'', test_handler),
                            (code_tool ''code_search'', test_handler),
                            (code_tool ''bitbucket_get_pr'', test_handler)],
     runtime = stub_runtime, config_agent_maxIterations = 25\<rparr>"

definition researcher_opts :: RunAgentOptions where
  "researcher_opts = \<lparr>opt_name = ''researcher'', opt_systemPrompt = ''You are a research agent.'',
     userMessage = ''map the architecture'', toolNames = Some [''code_*'', ''bitbucket_*''],
     maxIterations = Some 20, priorMessages = Some []\<rparr>"

definition stub_opts :: "string list option \<Rightarrow> int option \<Rightarrow> RunAgentOptions" where
  "stub_opts ns m = \<lparr>opt_name = ''researcher'', opt_systemPrompt = ''You are an agent.'',
     userMessage = ''hello'', toolNames = ns, maxIterations = m, priorMessages = None\<rparr>"

definition start :: "unit sys" where
  "start = \<lparr>world = (), trace = []\<rparr>"

text \<open>
  A second tool whose handler throws, and an oracle stub that requests both tools in one
  turn, with the values a run over them produces.
\<close>

definition failing_tool :: ToolDefinition where
  "failing_tool = \<lparr>name = ''failing_tool'', description = ''A tool that throws'',
     input_schema = JObj [(''type'', JStr ''object''), (''properties'', JObj [])]\<rparr>"

definition failing_handler :: "unit handler" where
  "failing_handler input w = (Inl ''boom'', w)"

definition two_tools_response :: LLMResponse where
  "two_tools_response =
     \<lparr>r_content = [tool_use_block ''toolu_1'' ''failing_tool'' (JObj []),
                   tool_use_block ''toolu_2'' ''test_tool'' (JObj [])]\<rparr>"

definition two_tools_oracle :: "unit llm_client" where
  "two_tools_oracle opts w = (Inr two_tools_response, w)"

definition two_tools_results :: "ContentBlock list" where
  "two_tools_results =
     [\<lparr>b_type = TypeToolResult, b_text = None, b_id = None, b_name = None, b_input = None,
       b_tool_use_id = Some ''toolu_1'',
       b_content = Some (JStr (''{'' @ [CHR 0x22] @ ''error'' @ [CHR 0x22] @ '':''
                                @ [CHR 0x22] @ ''boom'' @ [CHR 0x22] @ ''}'')),
       b_is_error = None\<rparr>,
      \<lparr>b_type = TypeToolResult, b_text = None, b_id = None, b_name = None, b_input = None,
       b_tool_use_id = Some ''toolu_2'', b_content = Some (JStr ''{}''), b_is_error = None\<rparr>]"

definition two_tools_events :: "event list" where
  "two_tools_events =
     [ToolExec ''failing_tool'' (JObj []) (Inl ''boom''),
      ToolExec ''test_tool'' (JObj [])
        (Inr (JObj [(''success'', JBool True), (''data'', JObj [(''echo'', JObj [])])]))]"

definition first_call :: LLMCallOptions where
  "first_call = \<lparr>systemPrompt = ''You are an agent.'',
     messages = [\<lparr>role = User, content = Str ''hello''\<rparr>], tools = None\<rparr>"

definition second_call :: LLMCallOptions where
  "second_call = \<lparr>systemPrompt = ''You are an agent.'',
     messages = [\<lparr>role = User, content = Str ''hello''\<rparr>,
                 \<lparr>role = Assistant, content = Blocks (r_content two_tools_response)\<rparr>,
                 \<lparr>role = User, content = Blocks two_tools_results\<rparr>],
     tools = None\<rparr>"

definition two_tools_env :: "unit env" where
  "two_tools_env = \<lparr>callLLM = two_tools_oracle,
     registry = registered [(failing_tool, failing_handler), (test_tool, test_handler)],
     runtime = stub_runtime, config_agent_maxIterations = 25\<rparr>"

section \<open>Sub-Agent Catalog (agents/sub-agents.ts)\<close>

text \<open>
  A sub-agent's handler takes the \<open>message\<close> property of the delegation input (possibly
  absent) and runs its own Agent Engine invocation.  The handlers differ in their prompts
  and tool subsets only; the catalog takes them as a parameter, by key.
\<close>

type_synonym 'w agent_fn = "json option \<Rightarrow> 'w sys \<Rightarrow> (string + RunAgentResult) \<times> 'w sys"

record 'w SubAgentDefinition =
  fn :: "'w agent_fn"
  agent_description :: string
  triggers :: "string list"

type_synonym 'w catalog = "(string \<times> 'w SubAgentDefinition) list"

definition SUB_AGENTS :: "(string \<Rightarrow> 'w agent_fn) \<Rightarrow> 'w catalog" where
  "SUB_AGENTS f =
    [(''feature_analysis'',
        \<lparr>fn = f ''feature_analysis'',
         agent_description = ''Analyze requirements, create implementation plans, decompose into stories/tasks'',
         triggers = [''analyze feature'', ''requirement'', ''implementation plan'', ''decompose'',
                     ''wireframe to requirements'', ''diagram to requirements'', ''prd'']\<rparr>),
     (''jira_management'',
        \<lparr>fn = f ''jira_management'',
         agent_description = ''Create, update, search Jira tickets; manage statuses, comments, sub-tasks'',
         triggers = [''jira'', ''ticket'', ''story'', ''epic'', ''sprint'', ''backlog'', ''sub-task'',
                     ''status'']\<rparr>),
     (''code_analysis'',
        \<lparr>fn = f ''code_analysis'',
         agent_description = ''Deep analysis of codebase: structure, standards, patterns, improvements'',
         triggers = [''analyze code'', ''code analysis'', ''repo analysis'', ''understand codebase'',
                     ''code standards'', ''analyze the codebase'', ''codebase'']\<rparr>),
     (''code_writer'',
        \<lparr>fn = f ''code_writer'',
         agent_description = ''Write production code matching project patterns and standards'',
         triggers = [''write code'', ''implement'', ''create file'', ''add feature'', ''build'',
                     ''code'']\<rparr>),
     (''code_test'',
        \<lparr>fn = f ''code_test'',
         agent_description = ''Write unit tests, integration tests following project conventions'',
         triggers = [''test'', ''unit test'', ''integration test'', ''write test'', ''add test'']\<rparr>),
     (''code_review'',
        \<lparr>fn = f ''code_review'',
         agent_description = ''Review code for quality, security, performance, standards compliance'',
         triggers = [''review'', ''code review'', ''pr review'', ''pull request'', ''check code'']\<rparr>),
     (''document_management'',
        \<lparr>fn = f ''document_management'',
         agent_description = ''Manage Confluence pages and project documentation'',
         triggers = [''confluence'', ''documentation'', ''wiki'', ''page'', ''document'', ''docs'']\<rparr>),
     (''diagram_generation'',
        \<lparr>fn = f ''diagram_generation'',
         agent_description = ''Generate diagrams (flow, sequence, ER, wireframe) from requirements or code'',
         triggers = [''diagram'', ''flowchart'', ''wireframe'', ''sequence diagram'', ''er diagram'',
                     ''mermaid'']\<rparr>)]"

section \<open>String built-ins modelled by definitions\<close>

text \<open>
  \<open>str_includes\<close> is \<open>String.prototype.includes\<close>, the substring test, and \<open>split_on\<close>
  is \<open>split\<close> with a one-character separator.
\<close>

fun startsWith :: "string \<Rightarrow> string \<Rightarrow> bool" where
  "startsWith str [] = True"
| "startsWith [] (c # t) = False"
| "startsWith (a # str) (c # t) = (a = c \<and> startsWith str t)"

fun str_includes :: "string \<Rightarrow> string \<Rightarrow> bool" where
  "str_includes [] t = (t = [])"
| "str_includes (a # str) t = (startsWith (a # str) t \<or> str_includes str t)"

fun split_on :: "char \<Rightarrow> string \<Rightarrow> string list" where
  "split_on c [] = [[]]"
| "split_on c (x # xs) =
     (if x = c then [] # split_on c xs
      else (case split_on c xs of [] \<Rightarrow> [[x]] | p # ps \<Rightarrow> (x # p) # ps))"

section \<open>quickRoute (agents/orchestrator.ts)\<close>

text \<open>The inner loop over an agent's triggers, with the running score.\<close>

fun triggerLoop :: "string \<Rightarrow> string list \<Rightarrow> nat \<Rightarrow> nat" where
  "triggerLoop lower [] score = score"
| "triggerLoop lower (trigger # rest) score =
     triggerLoop lower rest
       (if str_includes lower trigger then score + length (split_on CHR '' '' trigger) else score)"

text \<open>The outer loop over the catalog's entries, with the best match so far.\<close>

fun routeLoop :: "string \<Rightarrow> 'w catalog \<Rightarrow> string option \<Rightarrow> nat \<Rightarrow> string option \<times> nat" where
  "routeLoop lower [] bestMatch bestScore = (bestMatch, bestScore)"
| "routeLoop lower ((key, agent) # rest) bestMatch bestScore =
     (let score = triggerLoop lower (triggers agent) 0
      in if score > bestScore then routeLoop lower rest (Some key) score
         else routeLoop lower rest bestMatch bestScore)"

definition quickRoute :: "runtime \<Rightarrow> 'w catalog \<Rightarrow> string \<Rightarrow> string option" where
  "quickRoute rt cat userMsg =
     (case routeLoop (String_toLowerCase rt userMsg) cat None 0 of
        (bestMatch, bestScore) \<Rightarrow> if bestScore > 0 then bestMatch else None)"

text \<open>
  quickRoute as the specification words it.  The words of a phrase are its maximal runs
  of characters other than the space; \<open>count_words\<close> counts them from left to right,
  knowing whether the previous character belonged to a word.  A trigger matches a
  message when it is a substring of it once both are in lower case (\<open>sublist\<close> is the
  relation \<open>\<exists>ps ss. ys = ps @ xs @ ss\<close>).  An agent's score is the sum of the word counts
  of its matching triggers; the result is the first agent of the catalog, in iteration
  order, that attains the highest score, and null when that score is zero.
\<close>

fun count_words :: "bool \<Rightarrow> string \<Rightarrow> nat" where
  "count_words in_word [] = 0"
| "count_words in_word (c # cs) =
     (if c = CHR '' '' then count_words False cs
      else (if in_word then 0 else 1) + count_words True cs)"

definition word_count :: "string \<Rightarrow> nat" where
  "word_count t = count_words False t"

definition matches :: "runtime \<Rightarrow> string \<Rightarrow> string \<Rightarrow> bool" where
  "matches rt userMsg t = sublist (String_toLowerCase rt t) (String_toLowerCase rt userMsg)"

definition spec_score :: "runtime \<Rightarrow> string \<Rightarrow> string list \<Rightarrow> nat" where
  "spec_score rt userMsg ts = sum_list (map word_count (filter (matches rt userMsg) ts))"

definition spec_quickRoute :: "runtime \<Rightarrow> 'w catalog \<Rightarrow> string \<Rightarrow> string option" where
  "spec_quickRoute rt cat userMsg =
     (let best = foldr max (map (\<lambda>(k, a). spec_score rt userMsg (triggers a)) cat) 0
      in if best = 0 then None
         else map_option fst (find (\<lambda>(k, a). spec_score rt userMsg (triggers a) = best) cat))"

text \<open>
  The runtime's \<open>toLowerCase\<close> leaves the triggers of a catalog as they are: they are
  written in lower case.
\<close>

definition lower_case_triggers :: "runtime \<Rightarrow> 'w catalog \<Rightarrow> bool" where
  "lower_case_triggers rt cat =
     list_all (\<lambda>(k, a). list_all (\<lambda>t. String_toLowerCase rt t = t) (triggers a)) cat"

text \<open>
  A trigger is plain when moreover \<open>split(' ')\<close> cuts it into its words, of which there
  is at least one.
\<close>

definition plain_trigger :: "runtime \<Rightarrow> string \<Rightarrow> bool" where
  "plain_trigger rt t =
     (String_toLowerCase rt t = t \<and> length (split_on CHR '' '' t) = word_count t
        \<and> 0 < word_count t)"

definition plain_catalog :: "runtime \<Rightarrow> 'w catalog \<Rightarrow> bool" where
  "plain_catalog rt cat = list_all (\<lambda>(k, a). list_all (plain_trigger rt) (triggers a)) cat"

section \<open>Orchestrator (agents/orchestrator.ts)\<close>

record Delegation =
  agent :: string
  d_result :: string

record OrchestrateResult =
  o_result :: string
  delegations :: "Delegation list"
  conversationHistory :: "Message list"

definition buildDelegationTool :: "'w catalog \<Rightarrow> ToolDefinition" where
  "buildDelegationTool cat =
     \<lparr>name = ''delegate_to_agent'',
      description = ''Delegate a task to a specialized sub-agent. Available agents: ''
                      @ join '', '' (map fst cat),
      input_schema = JObj
        [(''type'', JStr ''object''),
         (''properties'', JObj
            [(''agent'', JObj [(''type'', JStr ''string''),
                               (''enum'', JArr (map JStr (map fst cat))),
                               (''description'', JStr ''Which sub-agent to delegate to'')]),
             (''message'', JObj [(''type'', JStr ''string''),
                                 (''description'', JStr
       ''The task/message to send to the sub-agent. Include all relevant context.'')])]),
         (''required'', JArr [JStr ''agent'', JStr ''message''])]\<rparr>"

text \<open>
  The loop \<open>for (const tu of toolUseBlocks)\<close> of \<open>orchestrate\<close>.  Reading \<open>input.agent\<close>
  of a \<open>null\<close> input throws a TypeError outside the \<open>try\<close>, which ends the whole
  invocation (the message is V8's).  The catalog is an object literal: the lookup
  \<open>SUB_AGENTS[agentName]\<close> finds the catalog's entry for one of its own keys, and for a
  key that the literal inherits a value that is truthy but has no \<open>fn\<close>; calling
  \<open>subAgent.fn\<close> then throws a TypeError inside the \<open>try\<close>.  A block whose name is not
  \<open>delegate_to_agent\<close> is passed over: the \<open>if\<close> has no \<open>else\<close>.
\<close>

fun processDelegations ::
  "runtime \<Rightarrow> 'w catalog \<Rightarrow> ToolUseBlock list \<Rightarrow> ContentBlock list \<Rightarrow> Delegation list
     \<Rightarrow> 'w sys \<Rightarrow> (string + ContentBlock list \<times> Delegation list) \<times> 'w sys" where
  "processDelegations rt cat [] toolResults allDelegations s =
     (Inr (toolResults, allDelegations), s)"
| "processDelegations rt cat (tu # tus) toolResults allDelegations s =
     (if tu_name tu = ''delegate_to_agent'' then
        (case tu_input tu of
           JNull \<Rightarrow>
             (Inl (''Cannot read properties of null (reading '' @ squoted ''agent'' @ '')''), s)
         | input \<Rightarrow>
            (let agentName = field input ''agent'';
                 message = field input ''message''
             in case map_of cat (js_string rt agentName) of
                  None \<Rightarrow>
                    if js_string rt agentName \<in> set Object_prototype
                    then processDelegations rt cat tus
                           (toolResults @ [tool_result_block (tu_id tu)
                              (''Error from '' @ js_string rt agentName
                                 @ '': subAgent.fn is not a function'')])
                           allDelegations s
                    else processDelegations rt cat tus
                           (toolResults @ [tool_result_block (tu_id tu)
                              (''Error: Unknown agent '' @ [CHR 0x22] @ js_string rt agentName
                                 @ [CHR 0x22])])
                           allDelegations s
                | Some subAgent \<Rightarrow>
                    (case fn subAgent message s of
                       (Inr res, s') \<Rightarrow>
                         processDelegations rt cat tus
                           (toolResults @ [tool_result_block (tu_id tu)
                              (if result res \<noteq> [] then result res
                               else ''Sub-agent completed but returned no text.'')])
                           (allDelegations @
                              [\<lparr>agent = js_string rt agentName, d_result = result res\<rparr>])
                           s'
                     | (Inl errorMsg, s') \<Rightarrow>
                         processDelegations rt cat tus
                           (toolResults @ [tool_result_block (tu_id tu)
                              (''Error from '' @ js_string rt agentName @ '': '' @ errorMsg)])
                           allDelegations s')))
      else processDelegations rt cat tus toolResults allDelegations s)"

text \<open>
  The loop \<open>for (let i = 0; i < maxOrchestratorLoops; i++)\<close> of \<open>orchestrate\<close>.  The
  orchestrator's system prompt is a fixed text, taken as a parameter.
\<close>

function orchestrateLoop ::
  "'w env \<Rightarrow> 'w catalog \<Rightarrow> string \<Rightarrow> int \<Rightarrow> int \<Rightarrow> Message list \<Rightarrow> Delegation list
     \<Rightarrow> string \<Rightarrow> 'w sys \<Rightarrow> (string + OrchestrateResult) \<times> 'w sys" where
  "orchestrateLoop env cat prompt maxOrchestratorLoops i msgs allDelegations finalResult s =
     (if i < maxOrchestratorLoops then
        (case call_oracle env
                \<lparr>systemPrompt = prompt, messages = msgs,
                 tools = Some [buildDelegationTool cat]\<rparr> s of
           (Inl err, s1) \<Rightarrow> (Inl err, s1)
         | (Inr response, s1) \<Rightarrow>
             (let text = extractText response;
                  finalResult' = (if text \<noteq> [] then text else finalResult);
                  toolUseBlocks = extractToolUse response;
                  msgs' = msgs @ [\<lparr>role = Assistant, content = Blocks (r_content response)\<rparr>]
              in if length toolUseBlocks = 0
                 then (Inr \<lparr>o_result = finalResult', delegations = allDelegations,
                            conversationHistory = msgs'\<rparr>, s1)
                 else (case processDelegations (runtime env) cat toolUseBlocks [] allDelegations s1 of
                         (Inl err, s2) \<Rightarrow> (Inl err, s2)
                       | (Inr (toolResults, allDelegations'), s2) \<Rightarrow>
                           orchestrateLoop env cat prompt maxOrchestratorLoops (i + 1)
                             (msgs' @ [\<lparr>role = User, content = Blocks toolResults\<rparr>])
                             allDelegations' finalResult' s2)))
      else (Inr \<lparr>o_result = finalResult, delegations = allDelegations,
                 conversationHistory = msgs\<rparr>, s))"
  by pat_completeness auto
termination
  by (relation "measure (\<lambda>(env, cat, prompt, maxLoops, i, rest). nat (maxLoops - i))") auto

declare orchestrateLoop.simps [simp del]

definition orchestrate ::
  "'w env \<Rightarrow> 'w catalog \<Rightarrow> string \<Rightarrow> string \<Rightarrow> Message list \<Rightarrow> 'w sys
     \<Rightarrow> (string + OrchestrateResult) \<times> 'w sys" where
  "orchestrate env cat prompt userMsg history s =
     orchestrateLoop env cat prompt 10 0
       (history @ [\<lparr>role = User, content = Str userMsg\<rparr>]) [] [] s"

text \<open>
  An oracle stub for the orchestrator: on the first turn it requests a tool other than
  the delegation tool, afterwards it answers.
\<close>

definition stray_tool_response :: LLMResponse where
  "stray_tool_response =
     \<lparr>r_content = [tool_use_block ''toolu_9'' ''jira_search'' (JObj [(''jql'', JStr ''project = X'')])]\<rparr>"

definition done_response :: LLMResponse where
  "done_response = \<lparr>r_content = [text_block ''done'']\<rparr>"

definition stray_tool_oracle :: "unit llm_client" where
  "stray_tool_oracle opts w =
     (if length (messages opts) = 1 then (Inr stray_tool_response, w) else (Inr done_response, w))"

definition no_agents :: "string \<Rightarrow> unit agent_fn" where
  "no_agents key message s = (Inl ''not reached'', s)"

section \<open>The pairing of requests and results\<close>

text \<open>
  The correlation ids of the tool-invocation requests of a message (what
  \<open>extractToolUse\<close> finds in its blocks), and the correlation ids of its tool-result
  blocks, both in order.
\<close>

definition request_ids :: "Message \<Rightarrow> string option list" where
  "request_ids m =
     (case content m of
        Blocks bs \<Rightarrow> map tu_id (extractToolUse \<lparr>r_content = bs\<rparr>)
      | Str t \<Rightarrow> [])"

definition result_ids :: "Message \<Rightarrow> string option list" where
  "result_ids m =
     (case content m of
        Blocks bs \<Rightarrow> map b_tool_use_id (filter (\<lambda>b. b_type b = TypeToolResult) bs)
      | Str t \<Rightarrow> [])"

text \<open>
  A sequence of turns in which every assistant message with requests is followed at once
  by a user message that holds one result per request, with the same ids in the same
  order: \<open>full_pairs\<close> when the sequence consists of such pairs only (the conversation is
  ready for the next oracle call), \<open>paired\<close> when it may end with one assistant message
  without requests.
\<close>

fun full_pairs :: "Message list \<Rightarrow> bool" where
  "full_pairs [] = True"
| "full_pairs [a] = False"
| "full_pairs (a # u # rest) =
     (role a = Assistant \<and> role u = User \<and> request_ids a \<noteq> []
        \<and> result_ids u = request_ids a \<and> full_pairs rest)"

fun paired :: "Message list \<Rightarrow> bool" where
  "paired [] = True"
| "paired [a] = (role a = Assistant \<and> request_ids a = [])"
| "paired (a # u # rest) =
     (role a = Assistant \<and> role u = User \<and> request_ids a \<noteq> []
        \<and> result_ids u = request_ids a \<and> paired rest)"

definition stray_conversation :: "Message list" where
  "stray_conversation =
     [\<lparr>role = User, content = Str ''search jira''\<rparr>,
      \<lparr>role = Assistant, content = Blocks (r_content stray_tool_response)\<rparr>,
      \<lparr>role = User, content = Blocks []\<rparr>,
      \<lparr>role = Assistant, content = Blocks (r_content done_response)\<rparr>]"

definition orchestrator_call :: "Message list \<Rightarrow> LLMCallOptions" where
  "orchestrator_call msgs =
     \<lparr>systemPrompt = ''You are the orchestrator.'', messages = msgs,
      tools = Some [buildDelegationTool (SUB_AGENTS no_agents)]\<rparr>"

text \<open>
  A conversation continues an initial one with new messages of a given shape.
\<close>

definition continues :: "Message list \<Rightarrow> (Message list \<Rightarrow> bool) \<Rightarrow> Message list \<Rightarrow> bool" where
  "continues initial shape msgs =
     (take (length initial) msgs = initial \<and> shape (drop (length initial) msgs))"

section \<open>RPC server (mcp/server.ts, mcp/tools.ts)\<close>

text \<open>
  A tool of the server is a tool definition with its \<open>execute\<close> function.  The server
  passes the \<open>arguments\<close> property of the request on as it is, so the function may
  receive \<open>undefined\<close>.
\<close>

type_synonym 'w tool_fn = "json option \<Rightarrow> 'w \<Rightarrow> (string + json) \<times> 'w"

record 'w Tool = ToolDefinition +
  tool_execute :: "'w tool_fn"

text \<open>
  \<open>getDevWeaverTools\<close>: the server's own tool list.  The input schemas and the
  \<open>execute\<close> functions (file operations on the planning documents) are taken as
  parameters, by tool name.
\<close>

definition getDevWeaverTools :: "(string \<Rightarrow> json) \<Rightarrow> (string \<Rightarrow> 'w tool_fn) \<Rightarrow> 'w Tool list" where
  "getDevWeaverTools schema exec =
     map (\<lambda>(n, d). \<lparr>name = n, description = d, input_schema = schema n, tool_execute = exec n\<rparr>)
      [(''devweaver_init_project'',
          ''Initialize a new DevWeaver project with .planning/ directory and documentation''),
       (''devweaver_add_phase'', ''Add a new phase to the current milestone in the roadmap''),
       (''devweaver_insert_phase'', ''Insert a phase at a specific position in the roadmap''),
       (''devweaver_remove_phase'', ''Remove a phase from the roadmap''),
       (''devweaver_complete_phase'', ''Mark a phase as completed''),
       (''devweaver_new_milestone'', ''Create a new development milestone''),
       (''devweaver_complete_milestone'', ''Complete and archive a milestone''),
       (''devweaver_read_roadmap'', ''Read the current roadmap with all milestones and phases''),
       (''devweaver_read_state'', ''Read the current project state (decisions, blockers, notes)''),
       (''devweaver_read_requirements'', ''Read the project requirements''),
       (''devweaver_read_project'', ''Read the project vision and direction''),
       (''devweaver_read_config'', ''Read DevWeaver configuration settings''),
       (''devweaver_update_state'', ''Update project state (add decisions, blockers, notes)''),
       (''devweaver_update_config'', ''Update DevWeaver configuration settings''),
       (''devweaver_get_current_phase'', ''Get the current phase number and details''),
       (''devweaver_get_progress'', ''Get overall project progress summary'')]"


record RpcError =
  err_code :: int
  err_message :: string
  err_data :: "json option"

text \<open>
  A response; its constant \<open>jsonrpc: '2.0'\<close> is left out.  A property that is
  \<open>undefined\<close> (\<open>None\<close>) is not written by \<open>JSON.stringify\<close>: a response with
  \<open>rpc_id = None\<close> goes out without an id.
\<close>

record JsonRpcResponse =
  rpc_id :: "json option"
  rpc_result :: "json option"
  rpc_error :: "RpcError option"

record 'w DevWeaverMCPServer =
  srv_tools :: "'w Tool list"

text \<open>
  The server's side of the outside world: the handlers' world, what was written to
  standard output, and the promise rejections that nothing handles (their messages).
  Standard output carries the responses, written by \<open>sendResponse\<close>, and also the lines
  that \<open>logger.info\<close> and \<open>logger.tool\<close> print through \<open>console.log\<close>: a log line is
  recorded with the arguments of the logger call, without the coloured prefix.
  \<open>logger.error\<close> prints to the standard error stream, which is not modelled.
\<close>

datatype stdout_item =
    Response JsonRpcResponse
  | Info "string list"
  | ToolLog string "string list"

record 'w server_io =
  io_world :: 'w
  stdout :: "stdout_item list"
  unhandled :: "string list"

definition logger_info :: "runtime \<Rightarrow> string list \<Rightarrow> 'w server_io \<Rightarrow> 'w server_io" where
  "logger_info rt args io =
     (if level_allows rt ''info'' then io\<lparr>stdout := stdout io @ [Info args]\<rparr> else io)"

definition logger_tool :: "runtime \<Rightarrow> string \<Rightarrow> string list \<Rightarrow> 'w server_io \<Rightarrow> 'w server_io" where
  "logger_tool rt n args io =
     (if level_allows rt ''info'' then io\<lparr>stdout := stdout io @ [ToolLog n args]\<rparr>
      else io)"

definition new_DevWeaverMCPServer ::
  "(string \<Rightarrow> json) \<Rightarrow> (string \<Rightarrow> 'w tool_fn) \<Rightarrow> 'w DevWeaverMCPServer" where
  "new_DevWeaverMCPServer schema exec = \<lparr>srv_tools = getDevWeaverTools schema exec\<rparr>"

definition rpc_ok :: "json option \<Rightarrow> json \<Rightarrow> JsonRpcResponse" where
  "rpc_ok i r = \<lparr>rpc_id = i, rpc_result = Some r, rpc_error = None\<rparr>"

definition rpc_fail :: "json option \<Rightarrow> int \<Rightarrow> string \<Rightarrow> json option \<Rightarrow> JsonRpcResponse" where
  "rpc_fail i c m d =
     \<lparr>rpc_id = i, rpc_result = None,
      rpc_error = Some \<lparr>err_code = c, err_message = m, err_data = d\<rparr>\<rparr>"

definition handleInitialize ::
  "runtime \<Rightarrow> json option \<Rightarrow> json option \<Rightarrow> 'w server_io \<Rightarrow> JsonRpcResponse \<times> 'w server_io" where
  "handleInitialize rt i params io =
     (rpc_ok i (JObj [(''protocolVersion'', JStr ''2024-11-05''),
                      (''serverInfo'', JObj [(''name'', JStr ''devweaver''),
                                             (''version'', JStr ''1.0.0'')]),
                      (''capabilities'', JObj [(''tools'', JObj [])])]),
      logger_info rt [''Client initializing MCP connection...''] io)"

definition tool_listing :: "('w, 'z) Tool_scheme \<Rightarrow> json" where
  "tool_listing tool =
     JObj [(''name'', JStr (name tool)), (''description'', JStr (description tool)),
           (''inputSchema'', input_schema tool)]"

definition handleListTools :: "'w DevWeaverMCPServer \<Rightarrow> json option \<Rightarrow> JsonRpcResponse" where
  "handleListTools srv i =
     rpc_ok i (JObj [(''tools'', JArr (map tool_listing (srv_tools srv)))])"

text \<open>\<open>params && typeof params === 'object'\<close>: an object or an array.\<close>

fun is_object :: "json option \<Rightarrow> bool" where
  "is_object (Some (JObj kvs)) = True"
| "is_object (Some (JArr xs)) = True"
| "is_object _ = False"

definition text_content :: "string \<Rightarrow> json" where
  "text_content t = JObj [(''content'', JArr [JObj [(''type'', JStr ''text''), (''text'', JStr t)]])]"

definition result_text :: "runtime \<Rightarrow> json \<Rightarrow> string" where
  "result_text rt v = (case v of JStr str \<Rightarrow> str | _ \<Rightarrow> JSON_stringify_pretty rt v)"

text \<open>
  \<open>handleCallTool\<close>.  The tool is looked up by the \<open>name\<close> property of the parameters and
  run on their \<open>arguments\<close> property as it is, \<open>undefined\<close> when the request has none.
\<close>

definition handleCallTool ::
  "runtime \<Rightarrow> 'w DevWeaverMCPServer \<Rightarrow> json option \<Rightarrow> json option \<Rightarrow> 'w server_io
     \<Rightarrow> JsonRpcResponse \<times> 'w server_io" where
  "handleCallTool rt srv i params io =
     (case (if is_object params then params else None) of
        None \<Rightarrow> (rpc_fail i (- 32602) ''Invalid params'' None, io)
      | Some p \<Rightarrow>
        (let nm = field p ''name'';
             args = field p ''arguments''
         in case find (\<lambda>t. Some (JStr (name t)) = nm) (srv_tools srv) of
              None \<Rightarrow> (rpc_fail i (- 32602) (''Tool not found: '' @ js_string rt nm) None, io)
            | Some tool \<Rightarrow>
                (let io1 = logger_tool rt (js_string rt nm) [''Executing...''] io
                 in case tool_execute tool args (io_world io1) of
                      (Inr res, w') \<Rightarrow>
                        (rpc_ok i (text_content (result_text rt res)), io1\<lparr>io_world := w'\<rparr>)
                    | (Inl msg, w') \<Rightarrow>
                        (rpc_fail i (- 32603) ''Tool execution failed'' (Some (JStr msg)),
                         io1\<lparr>io_world := w'\<rparr>))))"

text \<open>
  \<open>processRequest\<close>.  Destructuring a \<open>null\<close> request throws a TypeError, which
  rejects the promise (\<open>Inl\<close>, with the message as V8 words it); every other value has its
  properties read, absent ones as \<open>undefined\<close>.
\<close>

definition processRequest ::
  "runtime \<Rightarrow> 'w DevWeaverMCPServer \<Rightarrow> json \<Rightarrow> 'w server_io
     \<Rightarrow> (string + JsonRpcResponse option) \<times> 'w server_io" where
  "processRequest rt srv request io =
     (if request = JNull
      then (Inl (''Cannot destructure property '' @ squoted ''method'' @ '' of ''
                   @ squoted ''request'' @ '' as it is null.''), io)
      else
        (let method = field request ''method'';
             params = field request ''params'';
             i = field request ''id''
         in if method = Some (JStr ''initialize'') then
              (case handleInitialize rt i params io of (r, io') \<Rightarrow> (Inr (Some r), io'))
            else if method = Some (JStr ''initialized'') then
              (Inr None, logger_info rt [''MCP client initialized''] io)
            else if method = Some (JStr ''tools/list'') then (Inr (Some (handleListTools srv i)), io)
            else if method = Some (JStr ''tools/call'') then
              (case handleCallTool rt srv i params io of (r, io') \<Rightarrow> (Inr (Some r), io'))
            else if method = Some (JStr ''ping'') then
              (Inr (Some (rpc_ok i (JObj [(''status'', JStr ''ok'')]))), io)
            else (Inr (Some (rpc_fail i (- 32601)
                               (''Method not found: '' @ js_string rt method) None)), io)))"

definition sendResponse :: "JsonRpcResponse \<Rightarrow> 'w server_io \<Rightarrow> 'w server_io" where
  "sendResponse response io = io\<lparr>stdout := stdout io @ [Response response]\<rparr>"

definition sendError ::
  "json option \<Rightarrow> int \<Rightarrow> string \<Rightarrow> json option \<Rightarrow> 'w server_io \<Rightarrow> 'w server_io" where
  "sendError i c m d io = sendResponse (rpc_fail i c m d) io"

text \<open>
  \<open>handleMessage\<close>, which \<open>start\<close> calls on every line of standard input that is not
  blank, with the promise of \<open>processRequest\<close> run to its end (the processing of one
  message is taken as one step).  When the promise is rejected, the \<open>catch\<close>
  callback reads \<open>request.id\<close>; on a \<open>null\<close> request that read throws again, inside the
  callback: nothing is written, and the promise that \<open>catch\<close> returned is rejected with
  nothing to handle it.
\<close>

definition handleMessage ::
  "runtime \<Rightarrow> 'w DevWeaverMCPServer \<Rightarrow> string \<Rightarrow> 'w server_io \<Rightarrow> 'w server_io" where
  "handleMessage rt srv line io =
     (case JSON_parse rt line of
        Inl e \<Rightarrow> sendError None (- 32700) ''Parse error'' (Some (JStr e)) io
      | Inr request \<Rightarrow>
          (case processRequest rt srv request io of
             (Inr (Some response), io') \<Rightarrow> sendResponse response io'
           | (Inr None, io') \<Rightarrow> io'
           | (Inl e, io') \<Rightarrow>
               (if request = JNull
                then io'\<lparr>unhandled := unhandled io' @
                       [''Cannot read properties of null (reading '' @ squoted ''id'' @ '')'']\<rparr>
                else sendError (field request ''id'') (- 32603) ''Internal error''
                       (Some (JStr e)) io')))"

text \<open>The responses among what was written to standard output, in order.\<close>

fun responses :: "stdout_item list \<Rightarrow> JsonRpcResponse list" where
  "responses [] = []"
| "responses (Response r # out) = r # responses out"
| "responses (Info args # out) = responses out"
| "responses (ToolLog n args # out) = responses out"

definition known_methods :: "json option list" where
  "known_methods = map (\<lambda>m. Some (JStr m))
     [''initialize'', ''initialized'', ''tools/list'', ''tools/call'', ''ping'']"

text \<open>
  Stubs for the server: schemas and \<open>execute\<close> functions for its tool list (a function
  that says whether it was given arguments), the line with which the repository's own
  client announces that the handshake is complete (a notification: no id), a runtime
  that parses this line, and one that parses the line \<open>null\<close>.
\<close>

definition stub_schema :: "string \<Rightarrow> json" where
  "stub_schema n = JObj [(''type'', JStr ''object''), (''properties'', JObj [])]"

definition stub_exec :: "string \<Rightarrow> unit tool_fn" where
  "stub_exec n args w =
     (case args of
        None \<Rightarrow> (Inr (JStr ''called without arguments''), w)
      | Some a \<Rightarrow> (Inr (JObj [(''success'', JBool True)]), w))"

definition quoted :: "string \<Rightarrow> string" where
  "quoted str = [CHR 0x22] @ str @ [CHR 0x22]"

definition notification_line :: string where
  "notification_line =
     ''{'' @ quoted ''jsonrpc'' @ '':'' @ quoted ''2.0'' @ '','' @ quoted ''method'' @ '':''
       @ quoted ''notifications/initialized'' @ '','' @ quoted ''params'' @ '':{}}''"

definition notification_request :: json where
  "notification_request =
     JObj [(''jsonrpc'', JStr ''2.0''), (''method'', JStr ''notifications/initialized''),
           (''params'', JObj [])]"

definition notification_runtime :: runtime where
  "notification_runtime =
     stub_runtime\<lparr>JSON_parse :=
       (\<lambda>l. if l = notification_line then Inr notification_request
            else Inl ''Unexpected token'')\<rparr>"

definition null_runtime :: runtime where
  "null_runtime =
     stub_runtime\<lparr>JSON_parse :=
       (\<lambda>l. if l = ''null'' then Inr JNull else Inl ''Unexpected token'')\<rparr>"

definition fresh_io :: "unit server_io" where
  "fresh_io = \<lparr>io_world = (), stdout = [], unhandled = []\<rparr>"



section \<open>RPC client, stdio variant (tools/mcp.ts)\<close>

text \<open>
  How the promise of a request ended: resolved with the \<open>result\<close> property of the
  response (possibly absent), or rejected with the message of an error.
\<close>

datatype outcome = Resolved "json option" | Rejected string

text \<open>
  The state of a \<open>StdioMCPClient\<close>.  \<open>connected\<close> says that the child process handle is
  set; \<open>pending\<close> holds the keys of the pending-request map, whose entries are the
  \<open>resolve\<close> and \<open>reject\<close> callbacks of the promise of the request with that id;
  \<open>settled\<close> records, in order, the calls of those callbacks; \<open>written\<close> holds what was
  written to the child's standard input.  The runtime's timers are part of the state: the
  clock \<open>now\<close> in milliseconds and the scheduled timeouts, each with its due time and the
  id and method its callback closes over.
\<close>

record StdioMCPClient =
  connected :: bool
  requestId :: nat
  pending :: "nat set"
  buffer :: string
  written :: "string list"
  settled :: "(nat \<times> outcome) list"
  timers :: "(nat \<times> nat \<times> string) list"
  now :: nat

definition spawned_client :: StdioMCPClient where
  "spawned_client =
     \<lparr>connected = True, requestId = 0, pending = {}, buffer = [], written = [],
      settled = [], timers = [], now = 0\<rparr>"

definition sendRequest ::
  "runtime \<Rightarrow> string \<Rightarrow> json \<Rightarrow> StdioMCPClient \<Rightarrow> nat \<times> StdioMCPClient" where
  "sendRequest rt method params c =
     (let i = requestId c + 1;
          msg = JSON_stringify rt
                  (JObj [(''jsonrpc'', JStr ''2.0''), (''id'', JNum (int i)),
                         (''method'', JStr method), (''params'', params)]) @ [CHR 0x0A]
      in (i, c\<lparr>requestId := i,
               pending := insert i (pending c),
               written := (if connected c then written c @ [msg] else written c),
               timers := timers c @ [(now c + 30000, i, method)]\<rparr>))"

text \<open>The callback of the timeout of the request with id \<open>i\<close>.\<close>

definition onTimeout :: "nat \<Rightarrow> string \<Rightarrow> StdioMCPClient \<Rightarrow> StdioMCPClient" where
  "onTimeout i method c =
     (if i \<in> pending c
      then c\<lparr>pending := pending c - {i},
             settled := settled c @ [(i, Rejected (''MCP request timed out: '' @ method))]\<rparr>
      else c)"

text \<open>
  The runtime's timer phase when the clock has reached \<open>t\<close>: the callbacks of the
  timeouts that are due run, in the order they were scheduled, and are discarded.
\<close>

definition runTimers :: "nat \<Rightarrow> StdioMCPClient \<Rightarrow> StdioMCPClient" where
  "runTimers t c =
     foldl (\<lambda>c (due, i, method). onTimeout i method c)
       (c\<lparr>timers := filter (\<lambda>(due, i, method). \<not> due \<le> t) (timers c),
          now := max (now c) t\<rparr>)
       (filter (\<lambda>(due, i, method). due \<le> t) (timers c))"

text \<open>The rejection message \<open>String(error.message) || JSON.stringify(msg.error)\<close>.\<close>

definition error_text :: "runtime \<Rightarrow> json \<Rightarrow> string" where
  "error_text rt err =
     (let m = js_string rt (field err ''message'')
      in if m \<noteq> [] then m else JSON_stringify rt err)"

text \<open>
  The body of the loop of \<open>_onData\<close> for one line.  A line that is blank or does not
  parse is skipped; so is \<open>null\<close>, on which reading \<open>msg.id\<close> throws inside the \<open>try\<close>.
\<close>

definition handleLine :: "runtime \<Rightarrow> string \<Rightarrow> StdioMCPClient \<Rightarrow> StdioMCPClient" where
  "handleLine rt line c =
     (let trimmed = String_trim rt line
      in if trimmed = [] then c
         else (case JSON_parse rt trimmed of
                 Inl e \<Rightarrow> c
               | Inr JNull \<Rightarrow> c
               | Inr msg \<Rightarrow>
                   (case field msg ''id'' of
                      Some (JNum n) \<Rightarrow>
                        if 0 \<le> n \<and> nat n \<in> pending c
                        then c\<lparr>pending := pending c - {nat n},
                               settled := settled c @
                                 [(nat n,
                                   case field msg ''error'' of
                                     Some err \<Rightarrow>
                                       if truthy (Some err) then Rejected (error_text rt err)
                                       else Resolved (field msg ''result'')
                                   | None \<Rightarrow> Resolved (field msg ''result''))]\<rparr>
                        else c
                    | _ \<Rightarrow> c)))"

definition onData :: "runtime \<Rightarrow> string \<Rightarrow> StdioMCPClient \<Rightarrow> StdioMCPClient" where
  "onData rt chunk c =
     (let lines = split_on (CHR 0x0A) (buffer c @ chunk)
      in foldl (\<lambda>c line. handleLine rt line c) (c\<lparr>buffer := last lines\<rparr>) (butlast lines))"

definition disconnect :: "StdioMCPClient \<Rightarrow> StdioMCPClient" where
  "disconnect c = c\<lparr>connected := False\<rparr>"

text \<open>
  What can happen to a connected client: output of the child arrives, the program sends
  another request, or the clock reaches a time and the due timeouts fire.
\<close>

datatype client_event = Data string | Send string json | Tick nat

fun client_step :: "runtime \<Rightarrow> StdioMCPClient \<Rightarrow> client_event \<Rightarrow> StdioMCPClient" where
  "client_step rt c (Data chunk) = onData rt chunk c"
| "client_step rt c (Send method params) = snd (sendRequest rt method params c)"
| "client_step rt c (Tick t) = runTimers t c"

definition client_run :: "runtime \<Rightarrow> StdioMCPClient \<Rightarrow> client_event list \<Rightarrow> StdioMCPClient" where
  "client_run rt c evs = foldl (client_step rt) c evs"


text \<open>
  The invariant of the client: ids are handed out in increasing order, so the pending
  ids, the ids of the scheduled timeouts and the ids of the settled requests are at most
  \<open>requestId\<close>; a settled id is not pending; no two scheduled timeouts have the same id.
\<close>

definition client_inv :: "StdioMCPClient \<Rightarrow> bool" where
  "client_inv c =
     ((\<forall>i \<in> pending c. i \<le> requestId c)
      \<and> (\<forall>(due, i, method) \<in> set (timers c). i \<le> requestId c)
      \<and> distinct (map (\<lambda>(due, i, method). i) (timers c))
      \<and> (\<forall>(i, out) \<in> set (settled c). i \<le> requestId c \<and> i \<notin> pending c))"

text \<open>The settlements of the request with id \<open>i\<close>.\<close>

definition settlements :: "nat \<Rightarrow> StdioMCPClient \<Rightarrow> (nat \<times> outcome) list" where
  "settlements i c = filter (\<lambda>(j, out). j = i) (settled c)"

text \<open>
  A step that leaves the client as it is or retires one pending id with an outcome.
\<close>

definition retires :: "StdioMCPClient \<Rightarrow> StdioMCPClient \<Rightarrow> bool" where
  "retires c c' =
     (c' = c \<or> (\<exists>j out. j \<in> pending c
                  \<and> c' = c\<lparr>pending := pending c - {j}, settled := settled c @ [(j, out)]\<rparr>))"





text \<open>
  Stubs for the client: the line of a response with id 1, a runtime that parses it, the
  client after one \<open>tools/list\<close> request, and the events before and after the deadline.
\<close>

definition late_line :: string where
  "late_line =
     ''{'' @ quoted ''jsonrpc'' @ '':'' @ quoted ''2.0'' @ '','' @ quoted ''id'' @ '':1,''
       @ quoted ''result'' @ '':{'' @ quoted ''tools'' @ '':[]}}''"

definition late_response :: json where
  "late_response =
     JObj [(''jsonrpc'', JStr ''2.0''), (''id'', JNum 1), (''result'', JObj [(''tools'', JArr [])])]"

definition late_runtime :: runtime where
  "late_runtime =
     stub_runtime\<lparr>JSON_parse :=
       (\<lambda>l. if l = late_line then Inr late_response else Inl ''Unexpected token'')\<rparr>"

definition sent_client :: StdioMCPClient where
  "sent_client = snd (sendRequest late_runtime ''tools/list'' (JObj []) spawned_client)"


definition late_events :: "client_event list" where
  "late_events = [Data (late_line @ [CHR 0x0A])]"

section \<open>Properties of the Tool Registry\<close>

lemma map_of_register:
  "map_of (register d h reg) = (map_of reg)(name d \<mapsto> \<lparr>defn = d, handler = h\<rparr>)"
  by (simp add: register_def update_conv')

lemma registered_snoc: "registered (regs @ [(d, h)]) = register d h (registered regs)"
  by (simp add: registered_def)

lemma map_of_registered:
  "map_of (registered regs) n =
     map_option (\<lambda>(d, h). \<lparr>defn = d, handler = h\<rparr>) (current regs n)"
proof (induction regs rule: rev_induct)
  case Nil
  show ?case by (simp add: registered_def current_def)
next
  case (snoc r regs)
  obtain d h where r: "r = (d, h)" by (cases r)
  show ?case
    using snoc unfolding r registered_snoc by (simp add: map_of_register current_def)
qed

lemma distinct_registered: "distinct (map fst (registered regs))"
proof (induction regs rule: rev_induct)
  case Nil
  show ?case by (simp add: registered_def)
next
  case (snoc r regs)
  obtain d h where r: "r = (d, h)" by (cases r)
  show ?case
    using snoc unfolding r registered_snoc by (simp add: register_def distinct_update)
qed

lemma has_registered: "has (registered regs) n \<longleftrightarrow> current regs n \<noteq> None"
  by (simp add: has_def map_of_registered)

lemma current_name: "current regs n = Some (d, h) \<Longrightarrow> name d = n \<and> (d, h) \<in> set regs"
proof -
  assume "current regs n = Some (d, h)"
  then obtain i where i: "i < length (rev regs)" "rev regs ! i = (d, h)" "name d = n"
    unfolding current_def by (auto simp: find_Some_iff)
  from i(1,2) have "(d, h) \<in> set (rev regs)" by (metis nth_mem)
  with i(3) show ?thesis by simp
qed

lemma current_None: "current regs n = None \<longleftrightarrow> n \<notin> (name \<circ> fst) ` set regs"
  unfolding current_def by (auto simp: find_None_iff image_iff)

lemma definitions_registered:
  "set (definitions (registered regs)) = {d. \<exists>h. current regs (name d) = Some (d, h)}"
proof -
  have "set (definitions (registered regs)) = defn ` ran (map_of (registered regs))"
    by (simp add: definitions_def ran_distinct [OF distinct_registered] image_image)
  also have "\<dots> = {d. \<exists>h. current regs (name d) = Some (d, h)}"
  proof (intro set_eqI iffI)
    fix d assume "d \<in> defn ` ran (map_of (registered regs))"
    then obtain e n where e: "map_of (registered regs) n = Some e" and d: "d = defn e"
      by (auto simp: ran_def)
    from e obtain d' h' where c: "current regs n = Some (d', h')"
      and e': "e = \<lparr>defn = d', handler = h'\<rparr>"
      by (auto simp: map_of_registered)
    from c have "name d' = n" by (simp add: current_name)
    with c d e' show "d \<in> {d. \<exists>h. current regs (name d) = Some (d, h)}" by auto
  next
    fix d assume "d \<in> {d. \<exists>h. current regs (name d) = Some (d, h)}"
    then obtain h where "current regs (name d) = Some (d, h)" by auto
    then have "map_of (registered regs) (name d) = Some \<lparr>defn = d, handler = h\<rparr>"
      by (simp add: map_of_registered)
    then show "d \<in> defn ` ran (map_of (registered regs))"
      by (force simp: ran_def)
  qed
  finally show ?thesis .
qed

lemma definitionsFor_registered:
  "definitionsFor (registered regs) ns =
     map (\<lambda>n. fst (the (current regs n))) (filter (\<lambda>n. current regs n \<noteq> None) ns)"
  by (induction ns) (auto simp: definitionsFor_def has_registered map_of_registered)

lemma definitionsFor_map_filter:
  "definitionsFor (registered regs) ns =
     List.map_filter (\<lambda>n. map_option fst (current regs n)) ns"
  by (induction ns)
     (auto simp: definitionsFor_def has_registered map_of_registered List.map_filter_simps
           split: option.splits)

text \<open>
  Claim C7, as the code has it.  After any sequence of \<open>register\<close> calls, the unfiltered
  query \<open>definitions()\<close> returns exactly the specs currently registered (the last one
  registered under each name).  The filtered query \<open>definitionsFor(names)\<close> walks the
  filter list in its own order and returns the spec of every name that is registered,
  silently dropping the unknown names; with an empty filter list it returns the empty
  list, not the whole catalog.
\<close>

theorem registry_definition_queries:
  "set (definitions (registered regs)) = {d. \<exists>h. current regs (name d) = Some (d, h)}
   \<and> definitionsFor (registered regs) ns =
       List.map_filter (\<lambda>n. map_option fst (current regs n)) ns
   \<and> definitionsFor (registered regs) [] = []"
  by (simp add: definitions_registered definitionsFor_map_filter List.map_filter_simps)

text \<open>
  Claim C7 as stated fails: with the test tool registered, the filtered query with an
  empty filter list does not include its spec, while the unfiltered query does.
\<close>

theorem empty_filter_counterexample:
  "test_tool \<in> set (definitions (registered [(test_tool, test_handler)]))
   \<and> test_tool \<notin> set (definitionsFor (registered [(test_tool, test_handler)]) [])"
  by (simp add: definitions_def definitionsFor_def registered_def register_def)

section \<open>Properties of the Agent Engine\<close>

lemma agentLoop_rule:
  assumes init: "P i msgs calls ft s"
    and fail: "\<And>i msgs calls ft s err s1.
        \<lbrakk>P i msgs calls ft s; i < maxIter;
         call_oracle env \<lparr>systemPrompt = sp, messages = msgs,
            tools = (if length tls > 0 then Some tls else None)\<rparr> s = (Inl err, s1)\<rbrakk>
        \<Longrightarrow> Q (Inl err, s1)"
    and stop: "\<And>i msgs calls ft s response s1.
        \<lbrakk>P i msgs calls ft s; i < maxIter;
         call_oracle env \<lparr>systemPrompt = sp, messages = msgs,
            tools = (if length tls > 0 then Some tls else None)\<rparr> s = (Inr response, s1);
         extractToolUse response = []\<rbrakk>
        \<Longrightarrow> Q (Inr \<lparr>result = (if extractText response \<noteq> [] then extractText response else ft),
                   res_messages = msgs @ [\<lparr>role = Assistant, content = Blocks (r_content response)\<rparr>],
                   toolCalls = calls\<rparr>, s1)"
    and step: "\<And>i msgs calls ft s response s1 trs calls' s2.
        \<lbrakk>P i msgs calls ft s; i < maxIter;
         call_oracle env \<lparr>systemPrompt = sp, messages = msgs,
            tools = (if length tls > 0 then Some tls else None)\<rparr> s = (Inr response, s1);
         extractToolUse response \<noteq> [];
         executeToolCalls env (extractToolUse response) [] calls s1 = (trs, calls', s2)\<rbrakk>
        \<Longrightarrow> P (i + 1)
              (msgs @ [\<lparr>role = Assistant, content = Blocks (r_content response)\<rparr>,
                       \<lparr>role = User, content = Blocks trs\<rparr>])
              calls' (if extractText response \<noteq> [] then extractText response else ft) s2"
    and exhaust: "\<And>i msgs calls ft s.
        \<lbrakk>P i msgs calls ft s; \<not> i < maxIter\<rbrakk>
        \<Longrightarrow> Q (Inr \<lparr>result = ft, res_messages = msgs, toolCalls = calls\<rparr>, s)"
  shows "Q (agentLoop env sp tls maxIter i msgs calls ft s)"
  using init
proof (induction "nat (maxIter - i)" arbitrary: i msgs calls ft s)
  case 0
  then have "\<not> i < maxIter" by simp
  then show ?case using exhaust [OF "0.prems"] by (subst agentLoop.simps) simp
next
  case (Suc n)
  let ?opts = "\<lparr>systemPrompt = sp, messages = msgs,
            tools = (if length tls > 0 then Some tls else None)\<rparr>"
  from Suc.hyps(2) have lt: "i < maxIter" by simp
  obtain r s1 where co: "call_oracle env ?opts s = (r, s1)" by (cases "call_oracle env ?opts s")
  show ?case
  proof (cases r)
    case (Inl err)
    then show ?thesis using fail [OF Suc.prems lt] co lt
      by (subst agentLoop.simps) simp
  next
    case (Inr response)
    note co' = co [unfolded Inr]
    show ?thesis
    proof (cases "extractToolUse response = []")
      case True
      then show ?thesis using stop [OF Suc.prems lt co' True] co' lt
        by (subst agentLoop.simps) (simp add: Let_def)
    next
      case False
      obtain trs calls' s2 where ex:
        "executeToolCalls env (extractToolUse response) [] calls s1 = (trs, calls', s2)"
        by (cases "executeToolCalls env (extractToolUse response) [] calls s1")
      have n: "n = nat (maxIter - (i + 1))" using Suc.hyps(2) by simp
      have "Q (agentLoop env sp tls maxIter (i + 1)
              (msgs @ [\<lparr>role = Assistant, content = Blocks (r_content response)\<rparr>,
                       \<lparr>role = User, content = Blocks trs\<rparr>])
              calls' (if extractText response \<noteq> [] then extractText response else ft) s2)"
        by (rule Suc.hyps(1) [OF n step [OF Suc.prems lt co' False ex]])
      then show ?thesis using co' lt False ex
        by (subst agentLoop.simps) (simp add: Let_def)
    qed
  qed
qed


lemma oracle_calls_append [simp]: "oracle_calls (xs @ ys) = oracle_calls xs @ oracle_calls ys"
  by (induction xs rule: oracle_calls.induct) simp_all

lemma oracle_replies_append [simp]: "oracle_replies (xs @ ys) = oracle_replies xs @ oracle_replies ys"
  by (induction xs rule: oracle_replies.induct) simp_all

lemma oracle_calls_tool_events [simp]: "oracle_calls (tool_events tus outs) = []"
  unfolding tool_events_def by (induction tus outs rule: list_induct2') simp_all

lemma oracle_replies_tool_events [simp]: "oracle_replies (tool_events tus outs) = []"
  unfolding tool_events_def by (induction tus outs rule: list_induct2') simp_all

lemma call_oracle_trace:
  "call_oracle env opts s = (r, s1) \<Longrightarrow> trace s1 = trace s @ [LLMCall opts r]"
  by (auto simp: call_oracle_def split: prod.splits)

lemma call_oracle_result:
  "call_oracle env opts s = (r, s1) \<Longrightarrow> r = fst (callLLM env opts (world s))"
  by (auto simp: call_oracle_def split: prod.splits)

lemma registry_execute_trace:
  "registry_execute env n i s = (r, s1) \<Longrightarrow> trace s1 = trace s @ [ToolExec n i r]"
  by (auto simp: registry_execute_def split: prod.splits)

lemma executeToolCalls_spec:
  "executeToolCalls env tus trs calls s = (trs', calls', s') \<Longrightarrow>
     \<exists>outs. length outs = length tus
       \<and> trace s' = trace s @ tool_events tus outs
       \<and> trs' = trs @ tool_results (runtime env) tus outs
       \<and> calls' = calls @ map (\<lambda>tu. \<lparr>call_name = tu_name tu, call_input = tu_input tu\<rparr>) tus"
proof (induction tus arbitrary: trs calls s)
  case Nil
  then show ?case by (simp add: tool_events_def tool_results_def)
next
  case (Cons tu tus)
  obtain r s1 where ex: "registry_execute env (tu_name tu) (tu_input tu) s = (r, s1)"
    by (cases "registry_execute env (tu_name tu) (tu_input tu) s")
  from Cons.prems ex have rec: "executeToolCalls env tus
      (trs @ [tool_result_block (tu_id tu) (result_content (runtime env) (tool_payload r))])
      (calls @ [\<lparr>call_name = tu_name tu, call_input = tu_input tu\<rparr>]) s1 = (trs', calls', s')"
    by simp
  from Cons.IH [OF rec] obtain outs where outs: "length outs = length tus"
    "trace s' = trace s1 @ tool_events tus outs"
    "trs' = (trs @ [tool_result_block (tu_id tu) (result_content (runtime env) (tool_payload r))])
            @ tool_results (runtime env) tus outs"
    "calls' = (calls @ [\<lparr>call_name = tu_name tu, call_input = tu_input tu\<rparr>])
            @ map (\<lambda>tu. \<lparr>call_name = tu_name tu, call_input = tu_input tu\<rparr>) tus"
    by blast
  show ?case
    by (rule exI [of _ "r # outs"])
       (use outs registry_execute_trace [OF ex] in \<open>simp add: tool_events_def tool_results_def\<close>)
qed


lemma runAgent_agentLoop:
  "runAgent env opts s =
     agentLoop env (opt_systemPrompt opts)
       (case toolNames opts of Some ns \<Rightarrow> definitionsFor (registry env) ns
                             | None \<Rightarrow> definitions (registry env))
       (maxIterations_of env opts) 0
       ((case priorMessages opts of None \<Rightarrow> [] | Some ms \<Rightarrow> ms)
          @ [\<lparr>role = User, content = Str (userMessage opts)\<rparr>]) [] [] s"
  by (simp add: runAgent_def Let_def)

text \<open>
  Claim C10.  With an iteration budget of zero or less, \<open>runAgent\<close> returns at once:
  the result is the empty string, the conversation is the prior messages followed by the
  new user message, no tool call is recorded, and the world and its trace are unchanged,
  so neither the oracle nor any tool was called.
\<close>

theorem runAgent_no_iterations:
  assumes "maxIterations_of env opts \<le> 0"
  shows "runAgent env opts s =
     (Inr \<lparr>result = [],
           res_messages = (case priorMessages opts of None \<Rightarrow> [] | Some ms \<Rightarrow> ms)
              @ [\<lparr>role = User, content = Str (userMessage opts)\<rparr>],
           toolCalls = []\<rparr>, s)"
  using assms unfolding runAgent_agentLoop by (subst agentLoop.simps) simp

lemma agentLoop_tools_offered:
  fixes env :: "'w env" and s :: "'w sys"
  assumes "agentLoop env sp tls maxIter i msgs calls ft s = (r, s')"
  shows "\<exists>evs. trace s' = trace s @ evs
     \<and> (\<forall>c \<in> set (oracle_calls evs). tools c = (if length tls > 0 then Some tls else None))"
proof -
  let ?T = "if length tls > 0 then Some tls else None"
  let ?P = "\<lambda>(i::int) (msgs::Message list) (calls::ToolCall list) (ft::string) (s1 :: 'w sys).
     \<exists>evs. trace s1 = trace s @ evs \<and> (\<forall>c \<in> set (oracle_calls evs). tools c = ?T)"
  let ?Q = "\<lambda>(res :: (string + RunAgentResult) \<times> 'w sys).
     \<exists>evs. trace (snd res) = trace s @ evs \<and> (\<forall>c \<in> set (oracle_calls evs). tools c = ?T)"
  have "?Q (agentLoop env sp tls maxIter i msgs calls ft s)"
  proof (rule agentLoop_rule [where P = ?P and Q = ?Q])
    show "?P i msgs calls ft s" by simp
  next
    fix i msgs calls ft s0 err s1
    assume "?P i msgs calls ft s0"
      and "call_oracle env \<lparr>systemPrompt = sp, messages = msgs, tools = ?T\<rparr> s0 = (Inl err, s1)"
    then show "?Q (Inl err, s1)"
      by (auto dest!: call_oracle_trace)
  next
    fix i msgs calls ft s0 response s1
    assume "?P i msgs calls ft s0"
      and "call_oracle env \<lparr>systemPrompt = sp, messages = msgs, tools = ?T\<rparr> s0 = (Inr response, s1)"
    then show "?Q (Inr \<lparr>result = (if extractText response \<noteq> [] then extractText response else ft),
                   res_messages = msgs @ [\<lparr>role = Assistant, content = Blocks (r_content response)\<rparr>],
                   toolCalls = calls\<rparr>, s1)"
      by (auto dest!: call_oracle_trace)
  next
    fix i msgs calls ft s0 response s1 trs calls' s2
    assume "?P i msgs calls ft s0"
      and "call_oracle env \<lparr>systemPrompt = sp, messages = msgs, tools = ?T\<rparr> s0 = (Inr response, s1)"
      and "executeToolCalls env (extractToolUse response) [] calls s1 = (trs, calls', s2)"
    then show "?P (i + 1)
              (msgs @ [\<lparr>role = Assistant, content = Blocks (r_content response)\<rparr>,
                       \<lparr>role = User, content = Blocks trs\<rparr>])
              calls' (if extractText response \<noteq> [] then extractText response else ft) s2"
      by (auto dest!: call_oracle_trace executeToolCalls_spec)
  next
    fix i msgs calls ft and s0 :: "'w sys"
    assume "?P i msgs calls ft s0"
    then show "?Q (Inr \<lparr>result = ft, res_messages = msgs, toolCalls = calls\<rparr>, s0)" by simp
  qed
  with assms show ?thesis by simp
qed

text \<open>
  Witness for C10: a budget of \<open>-1\<close> with an oracle that would request a tool and a
  registry holding the test tool.
\<close>

theorem runAgent_no_iterations_witness:
  "maxIterations_of (stub_env tool_requesting_oracle) (stub_opts None (Some (- 1))) \<le> 0 \<and>
   runAgent (stub_env tool_requesting_oracle) (stub_opts None (Some (- 1))) start =
     (Inr \<lparr>result = [], res_messages = [\<lparr>role = User, content = Str ''hello''\<rparr>],
           toolCalls = []\<rparr>, start)"
  using runAgent_no_iterations [of "stub_env tool_requesting_oracle" "stub_opts None (Some (- 1))" start]
  by (simp add: maxIterations_of_def stub_opts_def)

lemma has_names: "has reg n \<longleftrightarrow> n \<in> set (names reg)"
  by (simp add: has_def names_def map_of_eq_None_iff)

lemma definitionsFor_unmatched:
  "set ns \<inter> set (names reg) = {} \<Longrightarrow> definitionsFor reg ns = []"
  by (auto simp: definitionsFor_def has_names filter_empty_conv)

text \<open>
  Claim C8.  Filter entries are matched by equality with a registered name only
  (\<open>has\<close> is membership in \<open>names\<close>); when no entry of the \<open>toolNames\<close> filter equals
  a registered name, the filtered tool list is empty and every oracle call of the run is
  made with \<open>tools\<close> undefined.
\<close>

theorem unmatched_filter_offers_no_tool:
  assumes "toolNames opts = Some ns" and "set ns \<inter> set (names (registry env)) = {}"
  shows "definitionsFor (registry env) ns = []
     \<and> list_all (\<lambda>c. tools c = None)
         (oracle_calls (new_events s (snd (runAgent env opts s))))"
proof -
  have empty: "definitionsFor (registry env) ns = []"
    using assms(2) by (rule definitionsFor_unmatched)
  obtain r s' where run: "runAgent env opts s = (r, s')" by (cases "runAgent env opts s")
  from run have "agentLoop env (opt_systemPrompt opts) [] (maxIterations_of env opts) 0
       ((case priorMessages opts of None \<Rightarrow> [] | Some ms \<Rightarrow> ms)
          @ [\<lparr>role = User, content = Str (userMessage opts)\<rparr>]) [] [] s = (r, s')"
    by (simp add: runAgent_agentLoop assms(1) empty)
  from agentLoop_tools_offered [OF this]
  have "list_all (\<lambda>c. tools c = None) (oracle_calls (new_events s s'))"
    by (auto simp: new_events_def list_all_iff)
  with empty run show ?thesis by simp
qed

text \<open>
  Witness for C8: \<open>spawnResearcher\<close> with its default wildcard-style filter, against a
  registry that holds \<open>code_read_file\<close>, \<open>code_search\<close> and \<open>bitbucket_get_pr\<close>.
\<close>

theorem unmatched_filter_offers_no_tool_witness:
  "toolNames researcher_opts = Some [''code_*'', ''bitbucket_*'']
   \<and> set [''code_*'', ''bitbucket_*''] \<inter> set (names (registry code_env)) = {}
   \<and> spawnResearcher code_env ''You are a research agent.'' ''map the architecture'' None start
       = runAgent code_env researcher_opts start
   \<and> definitionsFor (registry code_env) [''code_*'', ''bitbucket_*''] = []
   \<and> list_all (\<lambda>c. tools c = None)
         (oracle_calls (new_events start
            (snd (spawnResearcher code_env ''You are a research agent.'' ''map the architecture''
                    None start))))"
proof -
  have f: "toolNames researcher_opts = Some [''code_*'', ''bitbucket_*'']"
    by (simp add: researcher_opts_def)
  have d: "set [''code_*'', ''bitbucket_*''] \<inter> set (names (registry code_env)) = {}"
    by (simp add: code_env_def names_def registered_def register_def code_tool_def)
  have r: "spawnResearcher code_env ''You are a research agent.'' ''map the architecture'' None start
       = runAgent code_env researcher_opts start"
    by (simp add: spawnResearcher_def executeFreshContext_def researcher_opts_def)
  show ?thesis
    using f d r unmatched_filter_offers_no_tool [OF f d, of start]
    by simp
qed

lemma candidate_snoc: "candidate ft (rs @ [r]) = (if extractText r \<noteq> [] then extractText r else candidate ft rs)"
  by (simp add: candidate_def)

text \<open>
  Claim C3.  With an oracle that never fails and requests at least one tool invocation
  on every turn, \<open>runAgent\<close> returns normally; the oracle calls of the run are exactly
  \<open>maxIterations\<close> many (none for a budget below zero); and the result is the candidate
  final answer after the replies of the run: the last non-empty text, or the empty
  string.
\<close>

theorem budget_exhaustion_is_soft:
  fixes env :: "'w env" and s :: "'w sys"
  assumes requests: "\<forall>c w. \<exists>resp w'. callLLM env c w = (Inr resp, w') \<and> extractToolUse resp \<noteq> []"
  shows "\<exists>res. fst (runAgent env opts s) = Inr res
     \<and> length (oracle_calls (new_events s (snd (runAgent env opts s)))) = nat (maxIterations_of env opts)
     \<and> result res = candidate [] (oracle_replies (new_events s (snd (runAgent env opts s))))"
proof -
  let ?m = "maxIterations_of env opts"
  let ?P = "\<lambda>(i::int) (msgs::Message list) (calls::ToolCall list) (ft::string) (s1 :: 'w sys).
     0 \<le> i \<and> (i \<le> ?m \<or> i = 0) \<and>
     (\<exists>evs. trace s1 = trace s @ evs \<and> int (length (oracle_calls evs)) = i
         \<and> ft = candidate [] (oracle_replies evs))"
  let ?Q = "\<lambda>(out :: (string + RunAgentResult) \<times> 'w sys).
     \<exists>res. fst out = Inr res
     \<and> length (oracle_calls (new_events s (snd out))) = nat ?m
     \<and> result res = candidate [] (oracle_replies (new_events s (snd out)))"
  have orc: "\<And>c s0 r s1. call_oracle env c s0 = (r, s1) \<Longrightarrow> \<exists>resp. r = Inr resp \<and> extractToolUse resp \<noteq> []"
  proof -
    fix c and s0 :: "'w sys" and r s1 assume "call_oracle env c s0 = (r, s1)"
    then have "r = fst (callLLM env c (world s0))" by (rule call_oracle_result)
    with requests show "\<exists>resp. r = Inr resp \<and> extractToolUse resp \<noteq> []"
      by (metis fst_conv)
  qed
  have "?Q (agentLoop env (opt_systemPrompt opts)
       (case toolNames opts of Some ns \<Rightarrow> definitionsFor (registry env) ns
                             | None \<Rightarrow> definitions (registry env))
       ?m 0
       ((case priorMessages opts of None \<Rightarrow> [] | Some ms \<Rightarrow> ms)
          @ [\<lparr>role = User, content = Str (userMessage opts)\<rparr>]) [] [] s)"
  proof (rule agentLoop_rule [where P = ?P and Q = ?Q])
    show "?P 0 ((case priorMessages opts of None \<Rightarrow> [] | Some ms \<Rightarrow> ms)
          @ [\<lparr>role = User, content = Str (userMessage opts)\<rparr>]) [] [] s"
      by (simp add: candidate_def)
  next
    fix i msgs calls ft and s0 :: "'w sys" and err s1 c
    assume "call_oracle env c s0 = (Inl err, s1)"
    from orc [OF this] show "?Q (Inl err, s1)" by simp
  next
    fix i msgs calls ft and s0 :: "'w sys" and response s1 c
    assume "call_oracle env c s0 = (Inr response, s1)" and "extractToolUse response = []"
    with orc [of c s0 "Inr response" s1]
    show "?Q (Inr \<lparr>result = (if extractText response \<noteq> [] then extractText response else ft),
                   res_messages = msgs @ [\<lparr>role = Assistant, content = Blocks (r_content response)\<rparr>],
                   toolCalls = calls\<rparr>, s1)" by simp
  next
    fix i msgs calls ft and s0 :: "'w sys" and response s1 trs calls' s2 c
    assume P: "?P i msgs calls ft s0" and lt: "i < ?m"
      and co: "call_oracle env c s0 = (Inr response, s1)"
      and ex: "executeToolCalls env (extractToolUse response) [] calls s1 = (trs, calls', s2)"
    from P obtain evs where evs: "trace s0 = trace s @ evs" "int (length (oracle_calls evs)) = i"
      "ft = candidate [] (oracle_replies evs)" by blast
    from executeToolCalls_spec [OF ex] obtain outs where
      outs: "trace s2 = trace s1 @ tool_events (extractToolUse response) outs" by blast
    have tr: "trace s2 = trace s @ (evs @ [LLMCall c (Inr response)] @ tool_events (extractToolUse response) outs)"
      using evs(1) call_oracle_trace [OF co] outs by simp
    show "?P (i + 1)
              (msgs @ [\<lparr>role = Assistant, content = Blocks (r_content response)\<rparr>,
                       \<lparr>role = User, content = Blocks trs\<rparr>])
              calls' (if extractText response \<noteq> [] then extractText response else ft) s2"
      using P lt evs(2,3) by (auto simp: tr candidate_snoc intro!: exI [of _ "evs @ [LLMCall c (Inr response)] @ tool_events (extractToolUse response) outs"])
  next
    fix i msgs calls ft and s0 :: "'w sys"
    assume P: "?P i msgs calls ft s0" and ge: "\<not> i < ?m"
    from P obtain evs where evs: "trace s0 = trace s @ evs" "int (length (oracle_calls evs)) = i"
      "ft = candidate [] (oracle_replies evs)" by blast
    have "nat ?m = length (oracle_calls evs)" using P ge evs(2) by auto
    then show "?Q (Inr \<lparr>result = ft, res_messages = msgs, toolCalls = calls\<rparr>, s0)"
      using evs by (simp add: new_events_def)
  qed
  then show ?thesis by (simp add: runAgent_agentLoop)
qed

text \<open>
  Witness for C3: the stub that always requests the test tool, with a budget of three.
\<close>

theorem budget_exhaustion_is_soft_witness:
  "(\<forall>c w. \<exists>resp w'. callLLM (stub_env tool_requesting_oracle) c w = (Inr resp, w')
        \<and> extractToolUse resp \<noteq> [])
   \<and> (\<exists>res. fst (runAgent (stub_env tool_requesting_oracle) (stub_opts None (Some 3)) start) = Inr res
     \<and> length (oracle_calls (new_events start
           (snd (runAgent (stub_env tool_requesting_oracle) (stub_opts None (Some 3)) start)))) = 3
     \<and> result res = candidate [] (oracle_replies (new_events start
           (snd (runAgent (stub_env tool_requesting_oracle) (stub_opts None (Some 3)) start)))))"
proof -
  have h: "\<forall>c w. \<exists>resp w'. callLLM (stub_env tool_requesting_oracle) c w = (Inr resp, w')
        \<and> extractToolUse resp \<noteq> []"
    by (simp add: stub_env_def tool_requesting_oracle_def extractToolUse_def tool_use_block_def
          List.map_filter_simps)
  show ?thesis
    using h budget_exhaustion_is_soft [OF h, of "stub_opts None (Some 3)" start]
    by (simp add: maxIterations_of_def stub_opts_def)
qed

lemma handler_outcomes_length: "length (fst (handler_outcomes env tus w)) = length tus"
proof (induction tus arbitrary: w)
  case Nil
  show ?case by simp
next
  case (Cons tu tus)
  obtain r w1 where a: "execute (registry env) (tu_name tu) (tu_input tu) w = (r, w1)"
    by (cases "execute (registry env) (tu_name tu) (tu_input tu) w")
  obtain rs w2 where b: "handler_outcomes env tus w1 = (rs, w2)"
    by (cases "handler_outcomes env tus w1")
  from Cons.IH [of w1] b have "length rs = length tus" by simp
  with a b show ?case by (simp add: execute_def)
qed

lemma executeToolCalls_outcomes:
  "executeToolCalls env tus trs calls s =
     (case handler_outcomes env tus (world s) of
        (outs, w') \<Rightarrow>
          (trs @ tool_results (runtime env) tus outs,
           calls @ map (\<lambda>tu. \<lparr>call_name = tu_name tu, call_input = tu_input tu\<rparr>) tus,
           \<lparr>world = w', trace = trace s @ tool_events tus outs\<rparr>))"
proof (induction tus arbitrary: trs calls s)
  case Nil
  show ?case by (simp add: tool_results_def tool_events_def)
next
  case (Cons tu tus)
  show ?case
    by (simp add: Cons.IH registry_execute_def execute_def tool_results_def tool_events_def
          split: prod.splits)
qed

lemma tool_results_explicit:
  "tool_results rt tus outs =
     map (\<lambda>(tu, out).
            \<lparr>b_type = TypeToolResult, b_text = None, b_id = None, b_name = None, b_input = None,
             b_tool_use_id = tu_id tu,
             b_content = Some (JStr
               (case out of
                  Inl msg \<Rightarrow> JSON_stringify rt (JObj [(''error'', JStr msg)])
                | Inr v \<Rightarrow> (case v of JStr str \<Rightarrow> str | _ \<Rightarrow> JSON_stringify rt v))),
             b_is_error = None\<rparr>)
       (zip tus outs)"
proof -
  have "\<And>tu out. tool_result_block (tu_id tu) (result_content rt (tool_payload out)) =
            \<lparr>b_type = TypeToolResult, b_text = None, b_id = None, b_name = None, b_input = None,
             b_tool_use_id = tu_id tu,
             b_content = Some (JStr
               (case out of
                  Inl msg \<Rightarrow> JSON_stringify rt (JObj [(''error'', JStr msg)])
                | Inr v \<Rightarrow> (case v of JStr str \<Rightarrow> str | _ \<Rightarrow> JSON_stringify rt v))),
             b_is_error = None\<rparr>"
    by (simp add: tool_result_block_def result_content_def tool_payload_def split: sum.splits)
  then show ?thesis by (auto simp: tool_results_def)
qed

lemma agentLoop_extends:
  fixes env :: "'w env" and s :: "'w sys"
  shows "\<exists>evs. trace (snd (agentLoop env sp tls maxIter i msgs calls ft s)) = trace s @ evs"
proof -
  obtain r s' where run: "agentLoop env sp tls maxIter i msgs calls ft s = (r, s')"
    by (cases "agentLoop env sp tls maxIter i msgs calls ft s")
  from agentLoop_tools_offered [OF run] show ?thesis by (auto simp: run)
qed

lemma agentLoop_first_call:
  fixes env :: "'w env" and s :: "'w sys"
  assumes "i < maxIter"
  shows "\<exists>evs. trace (snd (agentLoop env sp tls maxIter i msgs calls ft s)) =
     trace s @
       [LLMCall \<lparr>systemPrompt = sp, messages = msgs,
                 tools = (if length tls > 0 then Some tls else None)\<rparr>
          (fst (callLLM env \<lparr>systemPrompt = sp, messages = msgs,
                  tools = (if length tls > 0 then Some tls else None)\<rparr> (world s)))] @ evs"
proof -
  let ?opts = "\<lparr>systemPrompt = sp, messages = msgs,
                 tools = (if length tls > 0 then Some tls else None)\<rparr>"
  obtain r s1 where co: "call_oracle env ?opts s = (r, s1)" by (cases "call_oracle env ?opts s")
  have r: "r = fst (callLLM env ?opts (world s))" using co by (rule call_oracle_result)
  have tr: "trace s1 = trace s @ [LLMCall ?opts r]" using co by (rule call_oracle_trace)
  show ?thesis
  proof (cases r)
    case (Inl err)
    have "agentLoop env sp tls maxIter i msgs calls ft s = (Inl err, s1)"
      using assms co Inl by (subst agentLoop.simps) simp
    then show ?thesis using tr r by simp
  next
    case (Inr response)
    show ?thesis
    proof (cases "extractToolUse response = []")
      case True
      have "snd (agentLoop env sp tls maxIter i msgs calls ft s) = s1"
        using assms co Inr True by (subst agentLoop.simps) (simp add: Let_def)
      then show ?thesis using tr r by simp
    next
      case False
      obtain trs calls' s2 where ex:
        "executeToolCalls env (extractToolUse response) [] calls s1 = (trs, calls', s2)"
        by (cases "executeToolCalls env (extractToolUse response) [] calls s1")
      from executeToolCalls_spec [OF ex] obtain outs where
        t2: "trace s2 = trace s1 @ tool_events (extractToolUse response) outs" by blast
      have eq: "agentLoop env sp tls maxIter i msgs calls ft s =
          agentLoop env sp tls maxIter (i + 1)
            (msgs @ [\<lparr>role = Assistant, content = Blocks (r_content response)\<rparr>,
                     \<lparr>role = User, content = Blocks trs\<rparr>])
            calls' (if extractText response \<noteq> [] then extractText response else ft) s2"
        using assms co Inr False ex by (subst agentLoop.simps) (simp add: Let_def)
      from agentLoop_extends [of env sp tls maxIter "i + 1"
            "msgs @ [\<lparr>role = Assistant, content = Blocks (r_content response)\<rparr>,
                     \<lparr>role = User, content = Blocks trs\<rparr>]"
            calls' "if extractText response \<noteq> [] then extractText response else ft" s2]
      obtain evs where "trace (snd (agentLoop env sp tls maxIter i msgs calls ft s)) = trace s2 @ evs"
        by (auto simp: eq)
      then show ?thesis using tr t2 r by simp
    qed
  qed
qed

lemma agentLoop_fails_by_oracle:
  fixes env :: "'w env" and s :: "'w sys"
  assumes "fst (agentLoop env sp tls maxIter i msgs calls ft s) = Inl err"
  shows "\<exists>c. LLMCall c (Inl err) \<in> set (new_events s (snd (agentLoop env sp tls maxIter i msgs calls ft s)))"
proof -
  let ?T = "if length tls > 0 then Some tls else None"
  let ?P = "\<lambda>(i::int) (msgs::Message list) (calls::ToolCall list) (ft::string) (s1 :: 'w sys).
     \<exists>evs. trace s1 = trace s @ evs"
  let ?Q = "\<lambda>(res :: (string + RunAgentResult) \<times> 'w sys).
     \<exists>evs. trace (snd res) = trace s @ evs
        \<and> (\<forall>e. fst res = Inl e \<longrightarrow> (\<exists>c. LLMCall c (Inl e) \<in> set evs))"
  have "?Q (agentLoop env sp tls maxIter i msgs calls ft s)"
  proof (rule agentLoop_rule [where P = ?P and Q = ?Q])
    show "?P i msgs calls ft s" by simp
  next
    fix i msgs calls ft s0 err s1
    assume "?P i msgs calls ft s0"
      and "call_oracle env \<lparr>systemPrompt = sp, messages = msgs, tools = ?T\<rparr> s0 = (Inl err, s1)"
    then show "?Q (Inl err, s1)"
      by (auto dest!: call_oracle_trace)
  next
    fix i msgs calls ft s0 response s1
    assume "?P i msgs calls ft s0"
      and "call_oracle env \<lparr>systemPrompt = sp, messages = msgs, tools = ?T\<rparr> s0 = (Inr response, s1)"
    then show "?Q (Inr \<lparr>result = (if extractText response \<noteq> [] then extractText response else ft),
                   res_messages = msgs @ [\<lparr>role = Assistant, content = Blocks (r_content response)\<rparr>],
                   toolCalls = calls\<rparr>, s1)"
      by (auto dest!: call_oracle_trace)
  next
    fix i msgs calls ft s0 response s1 trs calls' s2
    assume "?P i msgs calls ft s0"
      and "call_oracle env \<lparr>systemPrompt = sp, messages = msgs, tools = ?T\<rparr> s0 = (Inr response, s1)"
      and "executeToolCalls env (extractToolUse response) [] calls s1 = (trs, calls', s2)"
    then show "?P (i + 1)
              (msgs @ [\<lparr>role = Assistant, content = Blocks (r_content response)\<rparr>,
                       \<lparr>role = User, content = Blocks trs\<rparr>])
              calls' (if extractText response \<noteq> [] then extractText response else ft) s2"
      by (auto dest!: call_oracle_trace executeToolCalls_spec)
  next
    fix i msgs calls ft and s0 :: "'w sys"
    assume "?P i msgs calls ft s0"
    then show "?Q (Inr \<lparr>result = ft, res_messages = msgs, toolCalls = calls\<rparr>, s0)" by simp
  qed
  with assms show ?thesis by (auto simp: new_events_def)
qed

text \<open>
  Claim C4.  For a batch of requested tool calls, every call is run through the registry
  and has an outcome: what its handler returned or the message it threw, or the message
  \<open>Unknown tool\<close> when no tool has that name.  \<open>executeToolCalls\<close> never fails.  It
  returns one tool-result block per request, in order, with the request's correlation
  id; the content of the block is the serialized \<open>{error: message}\<close> payload when the
  call threw, and the call's own result otherwise (a string as it is, any other value
  serialized).  It records one ToolCall per request, and each request was executed once,
  also those after a call that threw.

  The loop goes on after such a turn, whatever the handlers did.  When the budget allows
  another iteration, the next thing the run does is to call the oracle on the
  conversation extended with the reply and with all the tool results; when the budget is
  used up, the run returns normally with that conversation.  A run fails only with the
  error of an oracle call that failed, never with that of a tool.
\<close>

theorem tool_failure_isolation:
  fixes env :: "'w env" and s s0 s2 :: "'w sys"
  assumes "i < maxIter"
    and "callLLM env \<lparr>systemPrompt = sp, messages = msgs,
            tools = (if length tls > 0 then Some tls else None)\<rparr> (world s0) = (Inr response, w1)"
    and "extractToolUse response \<noteq> []"
    and "handler_outcomes env (extractToolUse response) w1 = (outs, w2)"
    and "results =
           map (\<lambda>(tu, out).
                  \<lparr>b_type = TypeToolResult, b_text = None, b_id = None, b_name = None,
                   b_input = None, b_tool_use_id = tu_id tu,
                   b_content = Some (JStr
                     (case out of
                        Inl msg \<Rightarrow> JSON_stringify (runtime env) (JObj [(''error'', JStr msg)])
                      | Inr v \<Rightarrow> (case v of JStr str \<Rightarrow> str
                                  | _ \<Rightarrow> JSON_stringify (runtime env) v))),
                   b_is_error = None\<rparr>)
             (zip (extractToolUse response) outs)"
    and "msgs2 = msgs @ [\<lparr>role = Assistant, content = Blocks (r_content response)\<rparr>,
                         \<lparr>role = User, content = Blocks results\<rparr>]"
    and "s2 = \<lparr>world = w2,
               trace = trace s0 @
                 [LLMCall \<lparr>systemPrompt = sp, messages = msgs,
                     tools = (if length tls > 0 then Some tls else None)\<rparr> (Inr response)]
                 @ map (\<lambda>(tu, out). ToolExec (tu_name tu) (tu_input tu) out)
                     (zip (extractToolUse response) outs)\<rparr>"
  shows "(case handler_outcomes env tus (world s) of
      (outs', w') \<Rightarrow>
        length outs' = length tus \<and>
        executeToolCalls env tus [] calls s =
          (map (\<lambda>(tu, out).
                  \<lparr>b_type = TypeToolResult, b_text = None, b_id = None, b_name = None,
                   b_input = None, b_tool_use_id = tu_id tu,
                   b_content = Some (JStr
                     (case out of
                        Inl msg \<Rightarrow> JSON_stringify (runtime env) (JObj [(''error'', JStr msg)])
                      | Inr v \<Rightarrow> (case v of JStr str \<Rightarrow> str
                                  | _ \<Rightarrow> JSON_stringify (runtime env) v))),
                   b_is_error = None\<rparr>)
             (zip tus outs'),
           calls @ map (\<lambda>tu. \<lparr>call_name = tu_name tu, call_input = tu_input tu\<rparr>) tus,
           \<lparr>world = w',
            trace = trace s @ map (\<lambda>(tu, out). ToolExec (tu_name tu) (tu_input tu) out)
                                (zip tus outs')\<rparr>))
   \<and> length outs = length (extractToolUse response)
   \<and> (if i + 1 < maxIter
       then \<exists>evs. trace (snd (agentLoop env sp tls maxIter i msgs calls0 ft s0)) =
              trace s2 @
                [LLMCall \<lparr>systemPrompt = sp, messages = msgs2,
                    tools = (if length tls > 0 then Some tls else None)\<rparr>
                   (fst (callLLM env \<lparr>systemPrompt = sp, messages = msgs2,
                            tools = (if length tls > 0 then Some tls else None)\<rparr> w2))] @ evs
       else agentLoop env sp tls maxIter i msgs calls0 ft s0 =
              (Inr \<lparr>result = (if extractText response \<noteq> [] then extractText response else ft),
                    res_messages = msgs2,
                    toolCalls = calls0 @ map (\<lambda>tu. \<lparr>call_name = tu_name tu, call_input = tu_input tu\<rparr>)
                                          (extractToolUse response)\<rparr>, s2))
   \<and> (\<forall>err. fst (agentLoop env sp tls maxIter i msgs calls0 ft s0) = Inl err \<longrightarrow>
         (\<exists>c. LLMCall c (Inl err)
                \<in> set (new_events s0 (snd (agentLoop env sp tls maxIter i msgs calls0 ft s0)))))"
proof -
  let ?opts = "\<lparr>systemPrompt = sp, messages = msgs,
                 tools = (if length tls > 0 then Some tls else None)\<rparr>"
  let ?calls2 = "calls0 @ map (\<lambda>tu. \<lparr>call_name = tu_name tu, call_input = tu_input tu\<rparr>)
                            (extractToolUse response)"
  let ?ft2 = "if extractText response \<noteq> [] then extractText response else ft"
  have batch: "case handler_outcomes env tus (world s) of
      (outs', w') \<Rightarrow>
        length outs' = length tus \<and>
        executeToolCalls env tus [] calls s =
          (map (\<lambda>(tu, out).
                  \<lparr>b_type = TypeToolResult, b_text = None, b_id = None, b_name = None,
                   b_input = None, b_tool_use_id = tu_id tu,
                   b_content = Some (JStr
                     (case out of
                        Inl msg \<Rightarrow> JSON_stringify (runtime env) (JObj [(''error'', JStr msg)])
                      | Inr v \<Rightarrow> (case v of JStr str \<Rightarrow> str
                                  | _ \<Rightarrow> JSON_stringify (runtime env) v))),
                   b_is_error = None\<rparr>)
             (zip tus outs'),
           calls @ map (\<lambda>tu. \<lparr>call_name = tu_name tu, call_input = tu_input tu\<rparr>) tus,
           \<lparr>world = w',
            trace = trace s @ map (\<lambda>(tu, out). ToolExec (tu_name tu) (tu_input tu) out)
                                (zip tus outs')\<rparr>)"
  proof -
    obtain outs' w' where ho: "handler_outcomes env tus (world s) = (outs', w')"
      by (cases "handler_outcomes env tus (world s)")
    have len: "length outs' = length tus"
      using handler_outcomes_length [of env tus "world s"] ho by simp
    show ?thesis
      by (simp add: ho len executeToolCalls_outcomes tool_results_explicit tool_events_def)
  qed
  have len: "length outs = length (extractToolUse response)"
    using handler_outcomes_length [of env "extractToolUse response" w1] assms(4) by simp
  have co: "call_oracle env ?opts s0 =
      (Inr response, \<lparr>world = w1, trace = trace s0 @ [LLMCall ?opts (Inr response)]\<rparr>)"
    using assms(2) by (simp add: call_oracle_def)
  have ex: "executeToolCalls env (extractToolUse response) [] calls0
        \<lparr>world = w1, trace = trace s0 @ [LLMCall ?opts (Inr response)]\<rparr> =
      (results, ?calls2, s2)"
    by (simp add: executeToolCalls_outcomes assms(4,5,7) tool_results_explicit tool_events_def)
  have eq: "agentLoop env sp tls maxIter i msgs calls0 ft s0 =
      agentLoop env sp tls maxIter (i + 1) msgs2 ?calls2 ?ft2 s2"
    using assms(1,3) co ex by (subst agentLoop.simps) (simp add: Let_def assms(6))
  have w2: "world s2 = w2" by (simp add: assms(7))
  have cont: "if i + 1 < maxIter
       then \<exists>evs. trace (snd (agentLoop env sp tls maxIter i msgs calls0 ft s0)) =
              trace s2 @
                [LLMCall \<lparr>systemPrompt = sp, messages = msgs2,
                    tools = (if length tls > 0 then Some tls else None)\<rparr>
                   (fst (callLLM env \<lparr>systemPrompt = sp, messages = msgs2,
                            tools = (if length tls > 0 then Some tls else None)\<rparr> w2))] @ evs
       else agentLoop env sp tls maxIter i msgs calls0 ft s0 =
              (Inr \<lparr>result = ?ft2, res_messages = msgs2, toolCalls = ?calls2\<rparr>, s2)"
  proof (cases "i + 1 < maxIter")
    case True
    from agentLoop_first_call [OF True, of env sp tls msgs2 ?calls2 ?ft2 s2]
    show ?thesis using True by (simp add: eq w2)
  next
    case False
    have "agentLoop env sp tls maxIter (i + 1) msgs2 ?calls2 ?ft2 s2 =
        (Inr \<lparr>result = ?ft2, res_messages = msgs2, toolCalls = ?calls2\<rparr>, s2)"
      using False by (subst agentLoop.simps) simp
    then show ?thesis using False by (simp add: eq)
  qed
  have fails: "\<forall>err. fst (agentLoop env sp tls maxIter i msgs calls0 ft s0) = Inl err \<longrightarrow>
         (\<exists>c. LLMCall c (Inl err)
                \<in> set (new_events s0 (snd (agentLoop env sp tls maxIter i msgs calls0 ft s0))))"
    by (intro allI impI) (rule agentLoop_fails_by_oracle)
  from batch len cont fails show ?thesis by (intro conjI)
qed

lemma two_tools_extract:
  "extractToolUse two_tools_response =
     [\<lparr>tu_id = Some ''toolu_1'', tu_name = ''failing_tool'', tu_input = JObj []\<rparr>,
      \<lparr>tu_id = Some ''toolu_2'', tu_name = ''test_tool'', tu_input = JObj []\<rparr>]"
  by (simp add: extractToolUse_def two_tools_response_def tool_use_block_def List.map_filter_simps)

lemma two_tools_outcomes:
  "handler_outcomes two_tools_env (extractToolUse two_tools_response) () =
     ([Inl ''boom'',
       Inr (JObj [(''success'', JBool True), (''data'', JObj [(''echo'', JObj [])])])], ())"
  by (simp add: two_tools_extract two_tools_env_def registered_def register_def failing_tool_def
        test_tool_def failing_handler_def test_handler_def)

text \<open>
  Witness for C4: a run with a budget of two whose oracle requests, on every turn, a tool
  that throws and the test tool.  The first turn yields the error payload for the first
  request and the result of the test tool for the second; the oracle is then called again
  on the conversation that holds both.
\<close>

theorem tool_failure_isolation_witness:
  "(0 :: int) < 2
   \<and> callLLM two_tools_env first_call (world start) = (Inr two_tools_response, ())
   \<and> extractToolUse two_tools_response \<noteq> []
   \<and> handler_outcomes two_tools_env (extractToolUse two_tools_response) () =
       ([Inl ''boom'',
         Inr (JObj [(''success'', JBool True), (''data'', JObj [(''echo'', JObj [])])])], ())
   \<and> executeToolCalls two_tools_env (extractToolUse two_tools_response) [] [] start =
       ([\<lparr>b_type = TypeToolResult, b_text = None, b_id = None, b_name = None, b_input = None,
          b_tool_use_id = Some ''toolu_1'',
          b_content = Some (JStr (''{'' @ [CHR 0x22] @ ''error'' @ [CHR 0x22] @ '':''
                                   @ [CHR 0x22] @ ''boom'' @ [CHR 0x22] @ ''}'')),
          b_is_error = None\<rparr>,
         \<lparr>b_type = TypeToolResult, b_text = None, b_id = None, b_name = None, b_input = None,
          b_tool_use_id = Some ''toolu_2'', b_content = Some (JStr ''{}''), b_is_error = None\<rparr>],
        [\<lparr>call_name = ''failing_tool'', call_input = JObj []\<rparr>,
         \<lparr>call_name = ''test_tool'', call_input = JObj []\<rparr>],
        \<lparr>world = (), trace = two_tools_events\<rparr>)
   \<and> (\<exists>evs. trace (snd (agentLoop two_tools_env ''You are an agent.'' [] 2 0
                         [\<lparr>role = User, content = Str ''hello''\<rparr>] [] [] start)) =
         [LLMCall first_call (Inr two_tools_response)] @ two_tools_events
           @ [LLMCall second_call (Inr two_tools_response)] @ evs)"
proof -
  have c: "callLLM two_tools_env first_call (world start) = (Inr two_tools_response, ())"
    by (simp add: two_tools_env_def two_tools_oracle_def)
  have c': "callLLM two_tools_env \<lparr>systemPrompt = ''You are an agent.'',
       messages = [\<lparr>role = User, content = Str ''hello''\<rparr>],
       tools = (if length ([] :: ToolDefinition list) > 0 then Some [] else None)\<rparr> (world start)
     = (Inr two_tools_response, ())"
    using c by (simp add: first_call_def)
  have ne: "extractToolUse two_tools_response \<noteq> []" by (simp add: two_tools_extract)
  have orc: "\<And>c w. callLLM two_tools_env c w = (Inr two_tools_response, w)"
    by (simp add: two_tools_env_def two_tools_oracle_def)
  have rt: "runtime two_tools_env = stub_runtime" by (simp add: two_tools_env_def)
  have lt: "(0 :: int) < 2" by simp
  note th = tool_failure_isolation [OF lt c' ne two_tools_outcomes refl refl refl,
        where tus = "extractToolUse two_tools_response"
          and s = start and calls = "[]" and ?calls0.0 = "[]" and ft = "[]"]
  show ?thesis
    using c ne two_tools_outcomes th
    by (simp add: two_tools_outcomes [unfolded two_tools_extract] two_tools_extract start_def
          first_call_def second_call_def two_tools_results_def two_tools_events_def rt orc
          stub_runtime_def stub_stringify_def)
qed

section \<open>Properties of quickRoute\<close>

lemma startsWith_iff: "startsWith str t \<longleftrightarrow> (\<exists>q. str = t @ q)"
  by (induction str t rule: startsWith.induct) auto

lemma includes_iff: "str_includes str t \<longleftrightarrow> (\<exists>p q. str = p @ t @ q)"
proof (induction str)
  case Nil
  show ?case by auto
next
  case (Cons a str)
  show ?case
  proof
    assume "str_includes (a # str) t"
    then consider "startsWith (a # str) t" | "str_includes str t" by auto
    then show "\<exists>p q. a # str = p @ t @ q"
    proof cases
      case 1
      then obtain q where "a # str = t @ q" by (auto simp: startsWith_iff)
      then have "a # str = [] @ t @ q" by simp
      then show ?thesis by blast
    next
      case 2
      with Cons obtain p q where "str = p @ t @ q" by blast
      then have "a # str = (a # p) @ t @ q" by simp
      then show ?thesis by blast
    qed
  next
    assume "\<exists>p q. a # str = p @ t @ q"
    then obtain p q where pq: "a # str = p @ t @ q" by blast
    show "str_includes (a # str) t"
    proof (cases p)
      case Nil
      with pq have "startsWith (a # str) t" by (auto simp: startsWith_iff)
      then show ?thesis by simp
    next
      case (Cons b p')
      with pq have "str = p' @ t @ q" by simp
      with Cons.IH have "str_includes str t" by blast
      then show ?thesis by simp
    qed
  qed
qed

lemma triggerLoop_sum:
  "triggerLoop lower ts score =
     score + sum_list (map (\<lambda>t. length (split_on CHR '' '' t)) (filter (str_includes lower) ts))"
  by (induction ts arbitrary: score) simp_all

lemma includes_sublist: "str_includes str t = sublist t str"
  by (simp add: includes_iff sublist_def)

lemma triggerLoop_spec:
  "list_all (plain_trigger rt) ts
     \<Longrightarrow> triggerLoop (String_toLowerCase rt userMsg) ts 0 = spec_score rt userMsg ts"
proof -
  assume pl: "list_all (plain_trigger rt) ts"
  have a: "filter (str_includes (String_toLowerCase rt userMsg)) ts = filter (matches rt userMsg) ts"
    using pl by (induction ts) (auto simp: matches_def plain_trigger_def includes_sublist)
  have b: "map (\<lambda>t. length (split_on CHR '' '' t)) (filter (matches rt userMsg) ts)
         = map word_count (filter (matches rt userMsg) ts)"
    using pl by (induction ts) (auto simp: plain_trigger_def)
  show ?thesis by (simp add: triggerLoop_sum a b spec_score_def)
qed

lemma routeLoop_snd:
  "snd (routeLoop lower cat bm bs) =
     foldl max bs (map (\<lambda>(k, a). triggerLoop lower (triggers a) 0) cat)"
  by (induction cat arbitrary: bm bs) (auto simp: Let_def max_def)

lemma foldl_max_ge: "(b :: nat) \<le> foldl max b xs"
proof (induction xs arbitrary: b)
  case Nil show ?case by simp
next
  case (Cons x xs)
  have "b \<le> max b x" by simp
  also have "\<dots> \<le> foldl max (max b x) xs" by (rule Cons.IH)
  finally show ?case by simp
qed

lemma routeLoop_fst:
  "fst (routeLoop lower cat bm bs) =
     (let m = foldl max bs (map (\<lambda>(k, a). triggerLoop lower (triggers a) 0) cat)
      in if m > bs
         then map_option fst (find (\<lambda>(k, a). triggerLoop lower (triggers a) 0 = m) cat)
         else bm)"
proof (induction cat arbitrary: bm bs)
  case Nil
  show ?case by simp
next
  case (Cons e cat)
  obtain k a where e: "e = (k, a)" by (cases e)
  let ?sc = "\<lambda>(k, a). triggerLoop lower (triggers (a :: 'a SubAgentDefinition)) 0"
  let ?s = "triggerLoop lower (triggers a) 0"
  show ?case
  proof (cases "?s > bs")
    case True
    then have mx: "max bs ?s = ?s" by simp
    have ge: "?s \<le> foldl max ?s (map ?sc cat)" by (rule foldl_max_ge)
    show ?thesis
      using True ge by (auto simp: e Let_def Cons.IH mx)
  next
    case False
    then have mx: "max bs ?s = bs" by simp
    show ?thesis
      using False by (auto simp: e Let_def Cons.IH mx)
  qed
qed

lemma foldl_max_shift: "foldl max (max a b) xs = max (a :: nat) (foldl max b xs)"
  by (induction xs arbitrary: b) (simp_all add: max.assoc)

lemma foldr_max_foldl: "foldr max xs (b :: nat) = foldl max b xs"
proof (induction xs arbitrary: b)
  case Nil
  show ?case by simp
next
  case (Cons x xs)
  have "foldl max (max b x) xs = max x (foldl max b xs)"
    by (simp add: max.commute [of b x] foldl_max_shift)
  then show ?case by (simp add: Cons.IH)
qed

lemma words_SUB_AGENTS:
  "list_all (\<lambda>(k, a). list_all (\<lambda>t. length (split_on CHR '' '' t) = word_count t
      \<and> 0 < word_count t) (triggers a)) (SUB_AGENTS f)"
  by (simp add: SUB_AGENTS_def word_count_def)

lemma plain_SUB_AGENTS:
  assumes "lower_case_triggers rt (SUB_AGENTS f)"
  shows "plain_catalog rt (SUB_AGENTS f)"
proof -
  have "\<And>k a t. (k, a) \<in> set (SUB_AGENTS f) \<Longrightarrow> t \<in> set (triggers a) \<Longrightarrow> plain_trigger rt t"
  proof -
    fix k a t
    assume m: "(k, a) \<in> set (SUB_AGENTS f)" "t \<in> set (triggers a)"
    from m assms have "String_toLowerCase rt t = t"
      by (auto simp: lower_case_triggers_def list_all_iff)
    moreover from m words_SUB_AGENTS [of f]
    have "length (split_on CHR '' '' t) = word_count t \<and> 0 < word_count t"
      by (auto simp: list_all_iff)
    ultimately show "plain_trigger rt t" by (simp add: plain_trigger_def)
  qed
  then show ?thesis by (auto simp: plain_catalog_def list_all_iff)
qed

lemma foldl_max_mem: "foldl max (b :: nat) xs > b \<Longrightarrow> foldl max b xs \<in> set xs"
proof (induction xs arbitrary: b)
  case Nil
  then show ?case by simp
next
  case (Cons x xs)
  show ?case
  proof (cases "foldl max (max b x) xs > max b x")
    case True
    from Cons.IH [OF True] show ?thesis by simp
  next
    case False
    then have "foldl max (max b x) xs \<le> max b x" by (simp only: not_less)
    then have eq: "foldl max (max b x) xs = max b x"
      using foldl_max_ge [of "max b x" xs] by (rule le_antisym)
    have "b < max b x" using Cons.prems unfolding foldl_Cons eq .
    then have "max b x = x" by (simp add: max_def split: if_splits)
    with eq have "foldl max b (x # xs) = x" by simp
    then show ?thesis by (simp del: foldl_Cons)
  qed
qed

lemma foldl_max_zero: "foldl max (0 :: nat) xs = 0 \<longleftrightarrow> list_all (\<lambda>x. x = 0) xs"
proof (induction xs)
  case Nil
  show ?case by simp
next
  case (Cons x xs)
  have "foldl max x xs = max x (foldl max 0 xs)"
    using foldl_max_shift [of x 0 xs] by simp
  then show ?case using Cons by auto
qed

lemma split_on_nonempty: "split_on c xs \<noteq> []"
  by (induction xs) (auto split: list.splits)

lemma spec_score_zero:
  "list_all (plain_trigger rt) ts
     \<Longrightarrow> spec_score rt userMsg ts = 0 \<longleftrightarrow> \<not> list_ex (matches rt userMsg) ts"
proof (induction ts)
  case Nil
  show ?case by (simp add: spec_score_def)
next
  case (Cons t ts)
  then have "word_count t > 0" by (simp add: plain_trigger_def)
  with Cons show ?case by (auto simp: spec_score_def)
qed

lemma quickRoute_code:
  "quickRoute rt cat userMsg =
     (let lower = String_toLowerCase rt userMsg;
          m = foldl max 0 (map (\<lambda>(k, a). triggerLoop lower (triggers a) 0) cat)
      in if m > 0
         then map_option fst (find (\<lambda>(k, a). triggerLoop lower (triggers a) 0 = m) cat)
         else None)"
proof -
  obtain bm bs where r: "routeLoop (String_toLowerCase rt userMsg) cat None 0 = (bm, bs)"
    by (cases "routeLoop (String_toLowerCase rt userMsg) cat None 0")
  from r routeLoop_fst [of "String_toLowerCase rt userMsg" cat None 0]
       routeLoop_snd [of "String_toLowerCase rt userMsg" cat None 0]
  show ?thesis by (simp add: quickRoute_def Let_def)
qed

lemma quickRoute_refines:
  assumes "plain_catalog rt cat"
  shows "quickRoute rt cat userMsg = spec_quickRoute rt cat userMsg"
proof -
  have sc: "\<And>k a. (k, a) \<in> set cat \<Longrightarrow>
      triggerLoop (String_toLowerCase rt userMsg) (triggers a) 0 = spec_score rt userMsg (triggers a)"
    using assms by (auto simp: plain_catalog_def list_all_iff intro!: triggerLoop_spec)
  have m: "map (\<lambda>(k, a). triggerLoop (String_toLowerCase rt userMsg) (triggers a) 0) cat
         = map (\<lambda>(k, a). spec_score rt userMsg (triggers a)) cat"
    using sc by (auto intro!: map_cong)
  have f: "\<And>b. find (\<lambda>(k, a). triggerLoop (String_toLowerCase rt userMsg) (triggers a) 0 = b) cat
         = find (\<lambda>(k, a). spec_score rt userMsg (triggers a) = b) cat"
    using sc by (auto intro!: find_cong)
  show ?thesis
    by (simp add: quickRoute_code spec_quickRoute_def Let_def m f foldr_max_foldl)
qed

lemma spec_quickRoute_None:
  assumes "plain_catalog rt cat"
  shows "spec_quickRoute rt cat userMsg = None \<longleftrightarrow>
     \<not> list_ex (\<lambda>(k, a). list_ex (matches rt userMsg) (triggers a)) cat"
proof -
  let ?xs = "map (\<lambda>(k, a). spec_score rt userMsg (triggers a)) cat"
  let ?m = "foldl max 0 ?xs"
  have each: "\<And>k a. (k, a) \<in> set cat \<Longrightarrow>
      spec_score rt userMsg (triggers a) = 0 \<longleftrightarrow> \<not> list_ex (matches rt userMsg) (triggers a)"
    using assms by (auto simp: plain_catalog_def list_all_iff intro!: spec_score_zero)
  have "?m = 0 \<longleftrightarrow> (\<forall>(k, a) \<in> set cat. spec_score rt userMsg (triggers a) = 0)"
    by (auto simp: foldl_max_zero list_all_iff)
  also have "\<dots> \<longleftrightarrow> (\<forall>(k, a) \<in> set cat. \<not> list_ex (matches rt userMsg) (triggers a))"
    using each by auto
  also have "\<dots> \<longleftrightarrow> \<not> list_ex (\<lambda>(k, a). list_ex (matches rt userMsg) (triggers a)) cat"
    by (auto simp: list_ex_iff)
  finally have zero: "?m = 0 \<longleftrightarrow>
      \<not> list_ex (\<lambda>(k, a). list_ex (matches rt userMsg) (triggers a)) cat" .
  have some: "?m > 0 \<Longrightarrow> find (\<lambda>(k, a). spec_score rt userMsg (triggers a) = ?m) cat \<noteq> None"
  proof -
    assume "?m > 0"
    then have "?m \<in> set ?xs" by (rule foldl_max_mem)
    then obtain k a where "(k, a) \<in> set cat" "spec_score rt userMsg (triggers a) = ?m"
      by auto
    then show ?thesis by (auto simp: find_None_iff)
  qed
  show ?thesis
    using zero some by (auto simp: spec_quickRoute_def Let_def foldr_max_foldl)
qed

text \<open>
  Claim C6.  \<open>quickRoute\<close> is a function of the message (and of the runtime's
  \<open>toLowerCase\<close>): it acts on nothing.  Whenever the runtime's \<open>toLowerCase\<close> leaves the
  triggers of the Sub-Agent Catalog as they are (they are written in lower-case ASCII),
  \<open>quickRoute\<close> returns, for every message, what the specification words: each agent is
  scored by the sum of the word counts of its triggers that are substrings of the message
  up to case, the first agent in catalog order with the highest score is returned, and
  the result is null exactly when no trigger of any agent matches.
\<close>

theorem quickRoute_semantics:
  assumes "lower_case_triggers rt (SUB_AGENTS f)"
  shows "quickRoute rt (SUB_AGENTS f) userMsg = spec_quickRoute rt (SUB_AGENTS f) userMsg
   \<and> (quickRoute rt (SUB_AGENTS f) userMsg = None) =
       (\<not> list_ex (\<lambda>(k, a). list_ex (matches rt userMsg) (triggers a)) (SUB_AGENTS f))"
  by (simp add: quickRoute_refines [OF plain_SUB_AGENTS [OF assms]]
        spec_quickRoute_None [OF plain_SUB_AGENTS [OF assms]])

lemma lower_case_stub: "lower_case_triggers stub_runtime (SUB_AGENTS f)"
  by (simp add: lower_case_triggers_def SUB_AGENTS_def stub_runtime_def stub_toLowerCase_def
        lower_char_def)

text \<open>
  Witness for C6, on the runtime for ASCII strings: a message in mixed case whose
  lower-case form contains the triggers \<open>jira\<close> and \<open>ticket\<close> of one agent and no trigger of
  another; the code and the specification's wording both give that agent.
\<close>

theorem quickRoute_semantics_witness:
  "lower_case_triggers stub_runtime (SUB_AGENTS no_agents)
   \<and> quickRoute stub_runtime (SUB_AGENTS no_agents) ''Create a JIRA Ticket'' = Some ''jira_management''
   \<and> spec_quickRoute stub_runtime (SUB_AGENTS no_agents) ''Create a JIRA Ticket''
       = Some ''jira_management''
   \<and> list_ex (\<lambda>(k, a). list_ex (matches stub_runtime ''Create a JIRA Ticket'') (triggers a))
       (SUB_AGENTS no_agents)"
  using quickRoute_semantics [OF lower_case_stub, of no_agents "''Create a JIRA Ticket''"]
  by (simp add: lower_case_triggers_def quickRoute_def spec_quickRoute_def spec_score_def
        word_count_def matches_def SUB_AGENTS_def stub_runtime_def stub_toLowerCase_def lower_char_def
        char_of_def bit_0 sublist_code)

text \<open>
  The routing examples of the specification and of the repository's tests, by the code
  and by the specification's wording.
\<close>

lemma quickRoute_examples:
  "quickRoute stub_runtime (SUB_AGENTS f) ''create a jira ticket'' = Some ''jira_management''"
  "quickRoute stub_runtime (SUB_AGENTS f) ''write unit tests for auth'' = Some ''code_test''"
  "quickRoute stub_runtime (SUB_AGENTS f) ''completely unrelated gibberish xyz'' = None"
  "quickRoute stub_runtime (SUB_AGENTS f) ''Create a JIRA Ticket'' = Some ''jira_management''"
  by (simp_all add: quickRoute_def SUB_AGENTS_def stub_runtime_def stub_toLowerCase_def
        lower_char_def char_of_def bit_0)

lemma spec_quickRoute_examples:
  "spec_quickRoute stub_runtime (SUB_AGENTS f) ''create a jira ticket'' = Some ''jira_management''"
  "spec_quickRoute stub_runtime (SUB_AGENTS f) ''write unit tests for auth'' = Some ''code_test''"
  "spec_quickRoute stub_runtime (SUB_AGENTS f) ''completely unrelated gibberish xyz'' = None"
  by (simp_all add: spec_quickRoute_def spec_score_def matches_def word_count_def SUB_AGENTS_def
        stub_runtime_def stub_toLowerCase_def lower_char_def char_of_def bit_0 sublist_code)

section \<open>The pairing invariant in the Orchestrator and the Agent Engine\<close>

lemma extractToolUse_content [simp]:
  "extractToolUse \<lparr>r_content = r_content response\<rparr> = extractToolUse response"
  by (simp add: extractToolUse_def)

text \<open>
  Claim C2 fails for the Orchestrator.  When the oracle's reply holds a
  tool-invocation request whose name is not \<open>delegate_to_agent\<close>, \<open>orchestrate\<close> appends
  the reply, produces no tool-result block for that request, appends a user message with
  an empty block list, and calls the oracle again on that conversation: the request
  \<open>toolu_9\<close> is never answered.
\<close>

theorem orchestrate_leaves_request_unanswered:
  "orchestrate (stub_env stray_tool_oracle) (SUB_AGENTS no_agents)
       ''You are the orchestrator.'' ''search jira'' [] start =
     (Inr \<lparr>o_result = ''done'', delegations = [], conversationHistory = stray_conversation\<rparr>,
      \<lparr>world = (),
       trace = [LLMCall (orchestrator_call (take 1 stray_conversation)) (Inr stray_tool_response),
                LLMCall (orchestrator_call (take 3 stray_conversation)) (Inr done_response)]\<rparr>)
   \<and> request_ids (stray_conversation ! 1) = [Some ''toolu_9'']
   \<and> result_ids (stray_conversation ! 2) = []
   \<and> \<not> paired (drop 1 stray_conversation)"
proof -
  have tu: "extractToolUse stray_tool_response =
      [\<lparr>tu_id = Some ''toolu_9'', tu_name = ''jira_search'',
        tu_input = JObj [(''jql'', JStr ''project = X'')]\<rparr>]"
    by (simp add: extractToolUse_def stray_tool_response_def tool_use_block_def
          List.map_filter_simps)
  have tx: "extractText stray_tool_response = []"
    by (simp add: extractText_def stray_tool_response_def tool_use_block_def
          List.map_filter_simps)
  have tu': "extractToolUse done_response = []"
    by (simp add: extractToolUse_def done_response_def text_block_def List.map_filter_simps)
  have tx': "extractText done_response = ''done''"
    by (simp add: extractText_def done_response_def text_block_def List.map_filter_simps)
  have run: "orchestrate (stub_env stray_tool_oracle) (SUB_AGENTS no_agents)
       ''You are the orchestrator.'' ''search jira'' [] start =
     (Inr \<lparr>o_result = ''done'', delegations = [], conversationHistory = stray_conversation\<rparr>,
      \<lparr>world = (),
       trace = [LLMCall (orchestrator_call (take 1 stray_conversation)) (Inr stray_tool_response),
                LLMCall (orchestrator_call (take 3 stray_conversation)) (Inr done_response)]\<rparr>)"
    unfolding orchestrate_def
    apply (subst orchestrateLoop.simps)
    apply (simp add: call_oracle_def stub_env_def stray_tool_oracle_def start_def Let_def tu tx)
    apply (subst orchestrateLoop.simps)
    apply (simp add: call_oracle_def stray_tool_oracle_def Let_def tu' tx'
             stray_conversation_def orchestrator_call_def)
    done
  have ids: "request_ids (stray_conversation ! 1) = [Some ''toolu_9'']"
    using tu by (simp add: stray_conversation_def request_ids_def)
  have res: "result_ids (stray_conversation ! 2) = []"
    by (simp add: stray_conversation_def result_ids_def)
  have "\<not> paired (drop 1 stray_conversation)"
    using tu by (simp add: stray_conversation_def request_ids_def result_ids_def)
  with run ids res show ?thesis by simp
qed

lemma continues_append: "continues initial shape (initial @ new) = shape new"
  by (simp add: continues_def)

lemma full_pairs_paired: "full_pairs new \<Longrightarrow> paired new"
  by (induction new rule: full_pairs.induct) simp_all

lemma full_pairs_final:
  "full_pairs new \<Longrightarrow> role a = Assistant \<Longrightarrow> request_ids a = [] \<Longrightarrow> paired (new @ [a])"
  by (induction new rule: full_pairs.induct) simp_all

lemma full_pairs_snoc:
  "full_pairs new \<Longrightarrow> role a = Assistant \<Longrightarrow> role u = User \<Longrightarrow> request_ids a \<noteq> []
     \<Longrightarrow> result_ids u = request_ids a \<Longrightarrow> full_pairs (new @ [a, u])"
  by (induction new rule: full_pairs.induct) simp_all

lemma tool_results_ids:
  assumes "length outs = length tus"
  shows "map b_tool_use_id (filter (\<lambda>b. b_type b = TypeToolResult) (tool_results rt tus outs))
       = map tu_id tus"
  using assms [symmetric] unfolding tool_results_def
  by (induction tus outs rule: list_induct2) (simp_all add: tool_result_block_def)

lemma agentLoop_pairing:
  fixes env :: "'w env" and s :: "'w sys"
  assumes start: "msgs = initial @ new0" "full_pairs new0"
  shows "(\<exists>evs. trace (snd (agentLoop env sp tls maxIter i msgs calls ft s)) = trace s @ evs
            \<and> list_all (\<lambda>c. continues initial full_pairs (messages c)) (oracle_calls evs))
     \<and> (case fst (agentLoop env sp tls maxIter i msgs calls ft s) of
           Inl err \<Rightarrow> True
         | Inr res \<Rightarrow> continues initial paired (res_messages res))"
proof -
  let ?T = "if length tls > 0 then Some tls else None"
  let ?tr = "\<lambda>s1 :: 'w sys. \<exists>evs. trace s1 = trace s @ evs
            \<and> list_all (\<lambda>c. continues initial full_pairs (messages c)) (oracle_calls evs)"
  let ?P = "\<lambda>(i::int) (msgs::Message list) (calls::ToolCall list) (ft::string) (s1 :: 'w sys).
     continues initial full_pairs msgs \<and> ?tr s1"
  let ?Q = "\<lambda>(out :: (string + RunAgentResult) \<times> 'w sys).
     ?tr (snd out) \<and> (case fst out of Inl err \<Rightarrow> True
         | Inr res \<Rightarrow> continues initial paired (res_messages res))"
  have call: "\<And>msgs s0 r s1. continues initial full_pairs msgs \<Longrightarrow> ?tr s0 \<Longrightarrow>
      call_oracle env \<lparr>systemPrompt = sp, messages = msgs, tools = ?T\<rparr> s0 = (r, s1) \<Longrightarrow> ?tr s1"
  proof -
    fix msgs and s0 :: "'w sys" and r s1
    assume c: "continues initial full_pairs msgs" and t: "?tr s0"
      and co: "call_oracle env \<lparr>systemPrompt = sp, messages = msgs, tools = ?T\<rparr> s0 = (r, s1)"
    from t obtain evs where evs: "trace s0 = trace s @ evs"
      "list_all (\<lambda>c. continues initial full_pairs (messages c)) (oracle_calls evs)" by blast
    have "trace s1 = trace s @ (evs @ [LLMCall \<lparr>systemPrompt = sp, messages = msgs, tools = ?T\<rparr> r])"
      using call_oracle_trace [OF co] evs(1) by simp
    moreover have "list_all (\<lambda>c. continues initial full_pairs (messages c))
        (oracle_calls (evs @ [LLMCall \<lparr>systemPrompt = sp, messages = msgs, tools = ?T\<rparr> r]))"
      using evs(2) c by simp
    ultimately show "?tr s1" by blast
  qed
  have "?Q (agentLoop env sp tls maxIter i msgs calls ft s)"
  proof (rule agentLoop_rule [where P = ?P and Q = ?Q])
    show "?P i msgs calls ft s" using start by (simp add: continues_append)
  next
    fix i msgs calls ft and s0 :: "'w sys" and err s1
    assume P: "?P i msgs calls ft s0"
      and co: "call_oracle env \<lparr>systemPrompt = sp, messages = msgs, tools = ?T\<rparr> s0 = (Inl err, s1)"
    from P co call have "?tr s1" by blast
    then show "?Q (Inl err, s1)" by simp
  next
    fix i msgs calls ft and s0 :: "'w sys" and response s1
    assume P: "?P i msgs calls ft s0"
      and co: "call_oracle env \<lparr>systemPrompt = sp, messages = msgs, tools = ?T\<rparr> s0 = (Inr response, s1)"
      and no: "extractToolUse response = []"
    from P obtain new where new: "msgs = initial @ new" "full_pairs new"
      by (auto simp: continues_def) (metis append_take_drop_id)
    have "paired (new @ [\<lparr>role = Assistant, content = Blocks (r_content response)\<rparr>])"
      using new(2) no by (intro full_pairs_final) (simp_all add: request_ids_def)
    then have "continues initial paired
        (msgs @ [\<lparr>role = Assistant, content = Blocks (r_content response)\<rparr>])"
      using new(1) continues_append [of initial paired] by simp
    moreover have "?tr s1" using P co call by blast
    ultimately show "?Q (Inr \<lparr>result = (if extractText response \<noteq> [] then extractText response else ft),
                   res_messages = msgs @ [\<lparr>role = Assistant, content = Blocks (r_content response)\<rparr>],
                   toolCalls = calls\<rparr>, s1)" by simp
  next
    fix i msgs calls ft and s0 :: "'w sys" and response s1 trs calls' s2
    assume P: "?P i msgs calls ft s0"
      and co: "call_oracle env \<lparr>systemPrompt = sp, messages = msgs, tools = ?T\<rparr> s0 = (Inr response, s1)"
      and some: "extractToolUse response \<noteq> []"
      and ex: "executeToolCalls env (extractToolUse response) [] calls s1 = (trs, calls', s2)"
    from P obtain new where new: "msgs = initial @ new" "full_pairs new"
      by (auto simp: continues_def) (metis append_take_drop_id)
    from executeToolCalls_spec [OF ex] obtain outs where outs:
      "length outs = length (extractToolUse response)"
      "trace s2 = trace s1 @ tool_events (extractToolUse response) outs"
      "trs = tool_results (runtime env) (extractToolUse response) outs" by auto
    have "full_pairs (new @ [\<lparr>role = Assistant, content = Blocks (r_content response)\<rparr>,
                             \<lparr>role = User, content = Blocks trs\<rparr>])"
      using new(2) some outs(1)
      by (intro full_pairs_snoc) (simp_all add: request_ids_def result_ids_def outs(3) tool_results_ids)
    then have c: "continues initial full_pairs
        (msgs @ [\<lparr>role = Assistant, content = Blocks (r_content response)\<rparr>,
                 \<lparr>role = User, content = Blocks trs\<rparr>])"
      using new(1) continues_append [of initial full_pairs] by simp
    from P co call have "?tr s1" by blast
    then obtain evs where evs: "trace s1 = trace s @ evs"
      "list_all (\<lambda>c. continues initial full_pairs (messages c)) (oracle_calls evs)" by blast
    have "trace s2 = trace s @ (evs @ tool_events (extractToolUse response) outs)"
      using evs(1) outs(2) by simp
    moreover have "list_all (\<lambda>c. continues initial full_pairs (messages c))
        (oracle_calls (evs @ tool_events (extractToolUse response) outs))"
      using evs(2) by simp
    ultimately have "?tr s2" by blast
    with c show "?P (i + 1)
              (msgs @ [\<lparr>role = Assistant, content = Blocks (r_content response)\<rparr>,
                       \<lparr>role = User, content = Blocks trs\<rparr>])
              calls' (if extractText response \<noteq> [] then extractText response else ft) s2"
      by simp
  next
    fix i msgs calls ft and s0 :: "'w sys"
    assume P: "?P i msgs calls ft s0"
    then have "continues initial paired msgs"
      by (auto simp: continues_def intro: full_pairs_paired)
    with P show "?Q (Inr \<lparr>result = ft, res_messages = msgs, toolCalls = calls\<rparr>, s0)" by simp
  qed
  then show ?thesis by simp
qed

text \<open>
  The Agent Engine keeps the pairing that the Orchestrator breaks.  Every oracle call of a
  \<open>runAgent\<close> invocation is made on the initial conversation followed by complete pairs
  only: an assistant message with requests, then a user message holding one tool-result
  block per request, with the same correlation ids in the same order.  The conversation
  returned has the same shape, possibly closed by one assistant message without
  requests.
\<close>

lemma runAgent_pairing:
  "list_all
     (\<lambda>c. continues ((case priorMessages opts of None \<Rightarrow> [] | Some ms \<Rightarrow> ms)
                        @ [\<lparr>role = User, content = Str (userMessage opts)\<rparr>])
            full_pairs (messages c))
     (oracle_calls (new_events s (snd (runAgent env opts s))))
   \<and> (case fst (runAgent env opts s) of
         Inl err \<Rightarrow> True
       | Inr res \<Rightarrow>
           continues ((case priorMessages opts of None \<Rightarrow> [] | Some ms \<Rightarrow> ms)
                        @ [\<lparr>role = User, content = Str (userMessage opts)\<rparr>])
             paired (res_messages res))"
  using agentLoop_pairing [of "(case priorMessages opts of None \<Rightarrow> [] | Some ms \<Rightarrow> ms)
                        @ [\<lparr>role = User, content = Str (userMessage opts)\<rparr>]"
      "(case priorMessages opts of None \<Rightarrow> [] | Some ms \<Rightarrow> ms)
                        @ [\<lparr>role = User, content = Str (userMessage opts)\<rparr>]" "[]"
      env "opt_systemPrompt opts"
      "(case toolNames opts of Some ns \<Rightarrow> definitionsFor (registry env) ns
                             | None \<Rightarrow> definitions (registry env))"
      "maxIterations_of env opts" 0 "[]" "[]" s]
  by (auto simp: runAgent_agentLoop new_events_def)

section \<open>Properties of the RPC server\<close>

lemma responses_append [simp]: "responses (xs @ ys) = responses xs @ responses ys"
  by (induction xs rule: responses.induct) simp_all

lemma logger_info_keeps:
  "responses (stdout (logger_info rt args io)) = responses (stdout io)
   \<and> io_world (logger_info rt args io) = io_world io
   \<and> unhandled (logger_info rt args io) = unhandled io"
  by (simp add: logger_info_def)

lemma logger_tool_keeps:
  "responses (stdout (logger_tool rt n args io)) = responses (stdout io)
   \<and> io_world (logger_tool rt n args io) = io_world io
   \<and> unhandled (logger_tool rt n args io) = unhandled io"
  by (simp add: logger_tool_def)

lemma handleCallTool_keeps:
  "rpc_id (fst (handleCallTool rt srv i params io)) = i
   \<and> responses (stdout (snd (handleCallTool rt srv i params io))) = responses (stdout io)
   \<and> unhandled (snd (handleCallTool rt srv i params io)) = unhandled io"
  by (auto simp: handleCallTool_def Let_def rpc_ok_def rpc_fail_def logger_tool_keeps
           split: option.splits prod.splits sum.splits)

lemma processRequest_responds:
  assumes "request \<noteq> JNull" "field request ''method'' \<noteq> Some (JStr ''initialized'')"
  shows "\<exists>resp io'. processRequest rt srv request io = (Inr (Some resp), io')
           \<and> rpc_id resp = field request ''id''
           \<and> responses (stdout io') = responses (stdout io)
           \<and> unhandled io' = unhandled io"
proof -
  obtain r io1 where c: "handleCallTool rt srv (field request ''id'') (field request ''params'') io
      = (r, io1)"
    by (cases "handleCallTool rt srv (field request ''id'') (field request ''params'') io")
  from handleCallTool_keeps [of rt srv "field request ''id''" "field request ''params''" io] c
  have k: "rpc_id r = field request ''id''" "responses (stdout io1) = responses (stdout io)"
    "unhandled io1 = unhandled io" by simp_all
  show ?thesis
    using assms c k
    by (simp add: processRequest_def Let_def handleInitialize_def handleListTools_def
          rpc_ok_def rpc_fail_def logger_info_keeps)
qed

text \<open>
  For a line that parses to a request other than \<open>null\<close>, the server writes no response
  when the method is the literal \<open>initialized\<close>, and otherwise writes exactly one,
  carrying the request's id, absent when the request has none; a method that is none of
  the five known ones is answered with the error \<open>-32601\<close>, also without an id, and
  nothing else happens.
\<close>

lemma every_other_method_is_answered:
  assumes "JSON_parse rt line = Inr request" and "request \<noteq> JNull"
  shows "(if field request ''method'' = Some (JStr ''initialized'')
          then responses (stdout (handleMessage rt srv line io)) = responses (stdout io)
          else \<exists>resp. responses (stdout (handleMessage rt srv line io)) =
                   responses (stdout io) @ [resp]
                 \<and> rpc_id resp = field request ''id''
                 \<and> (field request ''method'' \<in> set known_methods
                      \<or> handleMessage rt srv line io =
                          io\<lparr>stdout := stdout io @
                            [Response
                               \<lparr>rpc_id = field request ''id'', rpc_result = None,
                                rpc_error = Some
                                  \<lparr>err_code = - 32601,
                                   err_message = ''Method not found: ''
                                      @ js_string rt (field request ''method''),
                                   err_data = None\<rparr>\<rparr>]\<rparr>))"
proof (cases "field request ''method'' = Some (JStr ''initialized'')")
  case True
  then show ?thesis
    using assms by (simp add: handleMessage_def processRequest_def logger_info_keeps)
next
  case False
  from processRequest_responds [OF assms(2) False, of rt srv io]
  obtain resp io' where r: "processRequest rt srv request io = (Inr (Some resp), io')"
    "rpc_id resp = field request ''id''" "responses (stdout io') = responses (stdout io)"
    by blast
  have unknown: "field request ''method'' \<notin> set known_methods \<Longrightarrow>
      io' = io \<and> resp = \<lparr>rpc_id = field request ''id'', rpc_result = None,
                rpc_error = Some \<lparr>err_code = - 32601,
                   err_message = ''Method not found: '' @ js_string rt (field request ''method''),
                   err_data = None\<rparr>\<rparr>"
    using r(1) assms(2) by (auto simp: processRequest_def known_methods_def Let_def rpc_fail_def)
  show ?thesis
    using False assms(1) r unknown
    by (auto simp: handleMessage_def sendResponse_def)
qed

text \<open>
  The id-less notification \<open>notifications/initialized\<close> that the repository's client
  sends draws a \<open>-32601\<close> response without id.
\<close>

lemma unknown_notification_is_answered:
  "handleMessage notification_runtime (new_DevWeaverMCPServer stub_schema stub_exec)
      notification_line fresh_io =
     \<lparr>io_world = (),
      stdout = [Response \<lparr>rpc_id = None, rpc_result = None,
                  rpc_error = Some \<lparr>err_code = - 32601,
                     err_message = ''Method not found: notifications/initialized'',
                     err_data = None\<rparr>\<rparr>],
      unhandled = []\<rparr>"
  by (simp add: handleMessage_def processRequest_def notification_runtime_def
        notification_request_def fresh_io_def sendResponse_def rpc_fail_def js_string_def Let_def)

text \<open>
  A line that parses to \<open>null\<close> is not answered, whatever the runtime, the tools and the
  state: nothing is written, and a rejection is left unhandled.
\<close>

lemma null_request_unanswered:
  assumes "JSON_parse rt line = Inr JNull"
  shows "handleMessage rt srv line io =
     io\<lparr>unhandled := unhandled io @
        [''Cannot read properties of null (reading '' @ squoted ''id'' @ '')'']\<rparr>"
  using assms by (simp add: handleMessage_def processRequest_def)

text \<open>
  Claim C9 does not hold of the code.  The line \<open>null\<close> parses to a request whose method
  is not \<open>initialized\<close> (it has none), and the server emits no response for it: standard
  output stays empty.  Reading the method of \<open>null\<close> throws in \<open>processRequest\<close>, and the
  \<open>catch\<close> callback that should answer with the error \<open>-32603\<close> throws in turn when it
  reads the id of \<open>null\<close>.
\<close>

theorem null_request_is_not_answered:
  "JSON_parse null_runtime ''null'' = Inr JNull
   \<and> field JNull ''method'' \<noteq> Some (JStr ''initialized'')
   \<and> handleMessage null_runtime (new_DevWeaverMCPServer stub_schema stub_exec) ''null'' fresh_io =
       \<lparr>io_world = (), stdout = [],
        unhandled = [''Cannot read properties of null (reading '' @ squoted ''id'' @ '')'']\<rparr>"
  by (simp add: handleMessage_def processRequest_def null_runtime_def fresh_io_def)










section \<open>Properties of the RPC client\<close>

lemma foldl_preserves:
  assumes "P c" and "\<And>c x. P c \<Longrightarrow> P (f c x)"
  shows "P (foldl f c xs)"
  using assms(1) by (induction xs arbitrary: c) (simp_all add: assms(2))

lemma onTimeout_retires: "retires c (onTimeout j m c)"
  by (auto simp: retires_def onTimeout_def)

lemma handleLine_retires: "retires c (handleLine rt line c)"
  by (auto simp: retires_def handleLine_def Let_def split: sum.splits json.splits option.splits)

lemma retires_inv: "retires c c' \<Longrightarrow> client_inv c \<Longrightarrow> client_inv c'"
  by (auto simp: retires_def client_inv_def)










lemma client_inv_sendRequest: "client_inv c \<Longrightarrow> client_inv (snd (sendRequest rt m p c))"
  by (fastforce simp: client_inv_def sendRequest_def Let_def)

lemma client_inv_onData: "client_inv c \<Longrightarrow> client_inv (onData rt chunk c)"
proof -
  assume inv: "client_inv c"
  let ?c = "c\<lparr>buffer := last (split_on (CHR 0x0A) (buffer c @ chunk))\<rparr>"
  have "client_inv ?c" using inv by (simp add: client_inv_def)
  then have "client_inv (foldl (\<lambda>c line. handleLine rt line c) ?c
      (butlast (split_on (CHR 0x0A) (buffer c @ chunk))))"
    by (rule foldl_preserves) (rule retires_inv [OF handleLine_retires])
  then show ?thesis by (simp add: onData_def Let_def)
qed



lemma client_inv_runTimers: "client_inv c \<Longrightarrow> client_inv (runTimers t c)"
proof -
  assume inv: "client_inv c"
  let ?c = "c\<lparr>timers := filter (\<lambda>(due, i, method). \<not> due \<le> t) (timers c), now := max (now c) t\<rparr>"
  have "client_inv ?c" using inv by (auto simp: client_inv_def distinct_map_filter)
  then have "client_inv (foldl (\<lambda>c (due, i, method). onTimeout i method c) ?c
      (filter (\<lambda>(due, i, method). due \<le> t) (timers c)))"
    by (rule foldl_preserves) (auto intro: retires_inv [OF onTimeout_retires])
  then show ?thesis by (simp add: runTimers_def)
qed

lemma client_inv_step: "client_inv c \<Longrightarrow> client_inv (client_step rt c ev)"
  by (cases ev) (simp_all add: client_inv_onData client_inv_sendRequest client_inv_runTimers)















text \<open>
  The timeout that fires after a response in time finds no pending entry and does
  nothing.
\<close>

lemma response_in_time:
  "settlements 1 (runTimers 30000 (client_run late_runtime sent_client late_events)) =
     [(1, Resolved (Some (JObj [(''tools'', JArr [])])))]
   \<and> 1 \<notin> pending (runTimers 30000 (client_run late_runtime sent_client late_events))"
  by (simp add: client_run_def sent_client_def late_events_def sendRequest_def spawned_client_def
        Let_def onData_def handleLine_def stub_trim_def is_space_def late_runtime_def stub_runtime_def
        late_line_def late_response_def quoted_def runTimers_def onTimeout_def settlements_def)

end
